theory Spec2Isabelle
  imports Complex_Main "HOL-Library.Multiset" "HOL-Library.Sublist"
begin

section \<open>JavaScript values\<close>

text \<open>
  A string-valued expression that may be \<^verbatim>\<open>null\<close> or \<^verbatim>\<open>undefined\<close> is a \<open>string option\<close>.
  In a condition JavaScript takes \<^verbatim>\<open>null\<close>, \<^verbatim>\<open>undefined\<close> and the empty string as false.
\<close>

definition truthy :: "string option \<Rightarrow> bool" where
  "truthy v = (case v of None \<Rightarrow> False | Some s \<Rightarrow> s \<noteq> [])"

text \<open>\<^verbatim>\<open>s.includes(t)\<close>: \<open>t\<close> occurs in \<open>s\<close> as a contiguous substring.\<close>

fun str_includes :: "string \<Rightarrow> string \<Rightarrow> bool" where
  "str_includes [] t = (t = [])"
| "str_includes (c # cs) t = (prefix t (c # cs) \<or> str_includes cs t)"

text \<open>
  A thrown value. \<^verbatim>\<open>new Error(msg)\<close> has a message and no \<^verbatim>\<open>status\<close> property; the queue
  pipeline also looks at \<^verbatim>\<open>error?.status\<close>, so the field is kept.
\<close>

record js_error =
  err_status :: "nat option"
  err_message :: string

definition Error :: "string \<Rightarrow> js_error" where
  "Error msg = \<lparr>err_status = None, err_message = msg\<rparr>"

section \<open>Credential store (AsyncStorage under the four keys the code uses)\<close>

text \<open>
  The store holds strings under \<^verbatim>\<open>spotify_access_token\<close>, \<^verbatim>\<open>spotify_refresh_token\<close>,
  \<^verbatim>\<open>spotify_code_verifier\<close> and \<^verbatim>\<open>spotify_access_expiry_ts\<close>. A key that is absent reads as
  \<^verbatim>\<open>null\<close> (\<open>None\<close>). The expiry is written as \<^verbatim>\<open>String(n)\<close> and read back with
  \<^verbatim>\<open>Number(s)\<close>; the model keeps the number itself.
\<close>

record storage =
  spotify_access_token :: "string option"
  spotify_refresh_token :: "string option"
  spotify_code_verifier :: "string option"
  spotify_access_expiry_ts :: "int option"

definition getRefreshToken :: "storage \<Rightarrow> string option" where
  "getRefreshToken st = spotify_refresh_token st"

definition getAccessTokenExpiryTs :: "storage \<Rightarrow> int option" where
  "getAccessTokenExpiryTs st = spotify_access_expiry_ts st"

definition setAccessToken :: "string \<Rightarrow> storage \<Rightarrow> storage" where
  "setAccessToken accessToken st = st\<lparr>spotify_access_token := Some accessToken\<rparr>"

definition setRefreshToken :: "string \<Rightarrow> storage \<Rightarrow> storage" where
  "setRefreshToken refreshToken st = st\<lparr>spotify_refresh_token := Some refreshToken\<rparr>"

definition setAccessTokenExpiryTs :: "int \<Rightarrow> storage \<Rightarrow> storage" where
  "setAccessTokenExpiryTs expiryTs st = st\<lparr>spotify_access_expiry_ts := Some expiryTs\<rparr>"

definition logout :: "storage \<Rightarrow> storage" where
  "logout st = st\<lparr>spotify_access_token := None, spotify_refresh_token := None,
     spotify_code_verifier := None, spotify_access_expiry_ts := None\<rparr>"

section \<open>Token lifecycle\<close>

text \<open>
  The decoded body of a token-endpoint response, with the three properties the code reads.
  \<open>TokenFailed\<close> stands for \<^verbatim>\<open>fetch\<close> or \<^verbatim>\<open>response.json()\<close> rejecting, which lands in the
  \<^verbatim>\<open>catch\<close> block of the caller.
\<close>

record token_data =
  access_token :: "string option"
  refresh_token :: "string option"
  expires_in :: "int option"

datatype token_reply = TokenFailed | TokenJson token_data

text \<open>
  \<^verbatim>\<open>expiresInSec ? Date.now() + (expiresInSec - 30) * 1000 : 0\<close>; a lifetime of 0 is false
  in a condition, like a missing one.
\<close>

definition expiry_from :: "int \<Rightarrow> int option \<Rightarrow> int" where
  "expiry_from now expiresInSec =
     (case expiresInSec of
        None \<Rightarrow> 0
      | Some e \<Rightarrow> if e \<noteq> 0 then now + (e - 30) * 1000 else 0)"

text \<open>
  \<^verbatim>\<open>exchangeCodeForToken\<close> of src/utils/spotify.ts. \<open>now\<close> is what \<^verbatim>\<open>Date.now()\<close> returns,
  \<open>reply\<close> what the token endpoint answers to the POST. \<^verbatim>\<open>setRefreshToken(data.refresh_token)\<close>
  is not guarded, and what \<^verbatim>\<open>AsyncStorage.setItem\<close> does with \<^verbatim>\<open>undefined\<close> is the platform
  store's business: \<open>undefined_as\<close> is \<open>Some s\<close> when the store writes the string \<open>s\<close> (the web
  store writes \<^verbatim>\<open>undefined\<close>) and \<open>None\<close> when \<^verbatim>\<open>setItem\<close> rejects, which lands in the
  \<^verbatim>\<open>catch\<close> block after the access token has been written.
\<close>

definition exchangeCodeForToken ::
  "string option \<Rightarrow> int \<Rightarrow> token_reply \<Rightarrow> storage \<Rightarrow> bool \<times> storage" where
  "exchangeCodeForToken undefined_as now reply st =
     (if \<not> truthy (spotify_code_verifier st) then (False, st)
      else case reply of
        TokenFailed \<Rightarrow> (False, st)
      | TokenJson data \<Rightarrow>
          (case access_token data of
             None \<Rightarrow> (False, st)
           | Some tok \<Rightarrow>
               if tok = [] then (False, st)
               else
                 let st1 = setAccessToken tok st
                 in (case (case refresh_token data of None \<Rightarrow> undefined_as | Some r \<Rightarrow> Some r) of
                       None \<Rightarrow> (False, st1)
                     | Some r \<Rightarrow>
                         let st2 = setRefreshToken r st1;
                             st3 = setAccessTokenExpiryTs (expiry_from now (expires_in data)) st2;
                             st4 = st3\<lparr>spotify_code_verifier := None\<rparr>
                         in (True, st4))))"

text \<open>
  The second copy of \<^verbatim>\<open>exchangeCodeForToken\<close>, in the redirect screen (src/unnamed/part_000):
  it writes the refresh token and the expiry only when the response has them.
\<close>

definition exchangeCodeForToken_redirect :: "int \<Rightarrow> token_reply \<Rightarrow> storage \<Rightarrow> bool \<times> storage" where
  "exchangeCodeForToken_redirect now reply st =
     (if \<not> truthy (spotify_code_verifier st) then (False, st)
      else case reply of
        TokenFailed \<Rightarrow> (False, st)
      | TokenJson data \<Rightarrow>
          (case access_token data of
             None \<Rightarrow> (False, st)
           | Some tok \<Rightarrow>
               if tok = [] then (False, st)
               else
                 let st1 = st\<lparr>spotify_access_token := Some tok\<rparr>;
                     st2 = (case refresh_token data of
                              None \<Rightarrow> st1
                            | Some r \<Rightarrow> if r \<noteq> [] then st1\<lparr>spotify_refresh_token := Some r\<rparr> else st1);
                     st3 = (case expires_in data of
                              None \<Rightarrow> st2
                            | Some e \<Rightarrow>
                                if e \<noteq> 0
                                then st2\<lparr>spotify_access_expiry_ts := Some (now + (e - 30) * 1000)\<rparr>
                                else st2);
                     st4 = st3\<lparr>spotify_code_verifier := None\<rparr>
                 in (True, st4)))"

text \<open>
  \<^verbatim>\<open>refreshAccessToken\<close>. Without a stored refresh token it returns false before any request.
  After the three setters the function writes the access token a second time and then, when
  the response has a lifetime, writes \<^verbatim>\<open>String(expiresInSec)\<close> under the expiry key.
\<close>

definition refreshAccessToken :: "int \<Rightarrow> token_reply \<Rightarrow> storage \<Rightarrow> bool \<times> storage" where
  "refreshAccessToken now reply st =
     (if \<not> truthy (getRefreshToken st) then (False, st)
      else case reply of
        TokenFailed \<Rightarrow> (False, st)
      | TokenJson data \<Rightarrow>
          (case access_token data of
             None \<Rightarrow> (False, st)
           | Some tok \<Rightarrow>
               if tok = [] then (False, st)
               else
                 let st1 = setAccessToken tok st;
                     st2 = (case refresh_token data of
                              None \<Rightarrow> st1
                            | Some r \<Rightarrow> if r \<noteq> [] then setRefreshToken r st1 else st1);
                     st3 = setAccessTokenExpiryTs (expiry_from now (expires_in data)) st2;
                     st4 = st3\<lparr>spotify_access_token := Some tok\<rparr>;
                     st5 = (case expires_in data of
                              None \<Rightarrow> st4
                            | Some e \<Rightarrow>
                                if e \<noteq> 0 then st4\<lparr>spotify_access_expiry_ts := Some e\<rparr> else st4)
                 in (True, st5)))"

section \<open>Authenticated request executor (makeApiCall)\<close>

text \<open>
  A track's \<^verbatim>\<open>uri\<close>. The type declares a string; the orchestrator tests
  \<^verbatim>\<open>track.uri === null\<close>, so \<^verbatim>\<open>null\<close> (\<open>None\<close>) is a value the code expects.
\<close>

type_synonym uri = "string option"

text \<open>
  The entries of \<^verbatim>\<open>SPOTIFY_ENDPOINTS\<close> with the arguments and query parameters the callers
  give them, in place of the URL text. \<open>SAVED_TRACKS limit offset\<close> is
  \<^verbatim>\<open>SAVED_TRACKS?limit=..&offset=..\<close>, without the offset when it is \<open>None\<close>.
\<close>

datatype url =
    ME
  | PLAYLISTS nat nat
  | PLAYLIST_TRACKS string nat nat
  | SAVED_TRACKS nat "nat option"
  | DEVICES
  | PLAYBACK_STATE
  | USER_QUEUE
  | PLAY "string option"
  | PAUSE "string option"
  | NEXT "string option"
  | PREVIOUS "string option"
  | SHUFFLE bool "string option"
  | TRANSFER
  | QUEUE uri "string option"

datatype req_body =
    UrisBody "uri list" "int option"
  | DeviceIdsBody "string list" bool

text \<open>The \<^verbatim>\<open>options\<close> argument; \<^verbatim>\<open>accept204\<close> is passed by callers and never read.\<close>

record options =
  http_method :: "string option"
  body :: "req_body option"

text \<open>
  An HTTP response as \<^verbatim>\<open>makeApiCall\<close> reads it: the status, the two headers, what
  \<^verbatim>\<open>response.json()\<close> gives (the decoded payload, or the error it rejects with) and the
  \<^verbatim>\<open>error.message\<close> property of the body (\<open>None\<close> when the body does not parse or has none).
\<close>

record 'a response =
  status :: nat
  content_type :: "string option"
  retry_after :: "string option"
  json :: "js_error + 'a"
  error_message :: "string option"

datatype 'a fetch_reply = NetworkError js_error | Response "'a response"

definition ok :: "'a response \<Rightarrow> bool" where
  "ok r = (200 \<le> status r \<and> status r \<le> 299)"

text \<open>
  What the outside world does during one \<^verbatim>\<open>makeApiCall\<close>: the clock, the answer to the request
  and to its retry, and the token endpoint's answer to the refresh made before the request
  (expired token) and to the one made after a 401.
\<close>

record 'a api_env =
  date_now :: int
  proactive_refresh :: token_reply
  first_reply :: "'a fetch_reply"
  reactive_refresh :: token_reply
  retry_reply :: "'a fetch_reply"

datatype api_event =
    RefreshAccessToken
  | Fetch url string "req_body option" string

text \<open>
  The \<^verbatim>\<open>catch\<close> block: an error whose message contains \<^verbatim>\<open>Rate limit exceeded\<close> is thrown
  again; every other error is logged and the call returns \<^verbatim>\<open>null\<close>.
\<close>

definition catch_block :: "js_error \<Rightarrow> js_error + 'a option" where
  "catch_block error =
     (if str_includes (err_message error) ''Rate limit exceeded'' then Inl error else Inr None)"

definition rate_limit_error :: "'a response \<Rightarrow> js_error" where
  "rate_limit_error r =
     Error (''Rate limit exceeded (429). Retry after: '' @
            (case retry_after r of
               None \<Rightarrow> ''unknown''
             | Some ra \<Rightarrow> if ra \<noteq> [] then ra else ''unknown'') @ '' seconds'')"

definition forbidden_error :: "'a response \<Rightarrow> js_error" where
  "forbidden_error r =
     (case error_message r of
        None \<Rightarrow> Error ''Forbidden (403): Access denied''
      | Some m \<Rightarrow>
          if str_includes m ''Insufficient client scope''
          then Error (''Insufficient client scope: '' @ m)
          else Error (''Forbidden (403): '' @ (if m \<noteq> [] then m else ''Access denied'')))"

definition json_body :: "'a response \<Rightarrow> js_error + 'a option" where
  "json_body r =
     (if str_includes (case content_type r of None \<Rightarrow> [] | Some ct \<Rightarrow> ct) ''application/json''
      then (case json r of Inl e \<Rightarrow> catch_block e | Inr v \<Rightarrow> Inr (Some v))
      else Inr None)"

text \<open>The checks on the retried response, in the order of the source.\<close>

definition retry_result :: "'a fetch_reply \<Rightarrow> js_error + 'a option" where
  "retry_result reply =
     (case reply of
        NetworkError e \<Rightarrow> catch_block e
      | Response retry \<Rightarrow>
          if status retry = 204 then Inr None
          else if status retry = 403 then catch_block (forbidden_error retry)
          else if status retry = 429 then catch_block (rate_limit_error retry)
          else if ok retry then json_body retry
          else Inr None)"

text \<open>
  The request that \<^verbatim>\<open>fetch(url, {method: options?.method || 'GET', headers, body})\<close> sends,
  with the bearer token of its \<^verbatim>\<open>Authorization\<close> header.
\<close>

definition request_of :: "url \<Rightarrow> options \<Rightarrow> string \<Rightarrow> api_event" where
  "request_of u opts accessToken =
     Fetch u (case http_method opts of None \<Rightarrow> ''GET'' | Some m \<Rightarrow> if m \<noteq> [] then m else ''GET'')
       (body opts) accessToken"

text \<open>
  \<^verbatim>\<open>makeApiCall\<close>: the result (\<open>Inl\<close> a thrown error, \<open>Inr None\<close> for \<^verbatim>\<open>null\<close>), the store
  afterwards, and the refreshes and requests made, in order. The access token is read once,
  before any refresh, and both requests carry that value.
\<close>

definition makeApiCall ::
  "'a api_env \<Rightarrow> url \<Rightarrow> options \<Rightarrow> storage \<Rightarrow> (js_error + 'a option) \<times> storage \<times> api_event list" where
  "makeApiCall env u opts st =
     (case spotify_access_token st of
        None \<Rightarrow> (Inl (Error ''No access token available''), st, [])
      | Some accessToken \<Rightarrow>
          if accessToken = [] then (Inl (Error ''No access token available''), st, [])
          else
            let expired = (case getAccessTokenExpiryTs st of
                             None \<Rightarrow> False
                           | Some ts \<Rightarrow> ts \<noteq> 0 \<and> date_now env > ts);
                st1 = (if expired then snd (refreshAccessToken (date_now env) (proactive_refresh env) st)
                       else st);
                ev1 = (if expired then [RefreshAccessToken] else []);
                request = request_of u opts accessToken
            in case first_reply env of
                 NetworkError e \<Rightarrow> (catch_block e, st1, ev1 @ [request])
               | Response response \<Rightarrow>
                   if status response = 204 then (Inr None, st1, ev1 @ [request])
                   else if ok response then (json_body response, st1, ev1 @ [request])
                   else if status response = 429
                     then (catch_block (rate_limit_error response), st1, ev1 @ [request])
                   else if status response = 403
                     then (catch_block (forbidden_error response), st1, ev1 @ [request])
                   else if status response = 401 then
                     (case refreshAccessToken (date_now env) (reactive_refresh env) st1 of
                        (refreshed, st2) \<Rightarrow>
                          if refreshed
                          then (retry_result (retry_reply env), st2,
                                ev1 @ [request, RefreshAccessToken, request])
                          else (Inr None, st2, ev1 @ [request, RefreshAccessToken]))
                   else (Inr None, st1, ev1 @ [request]))"

section \<open>Playback controls\<close>

text \<open>
  Every wrapper awaits \<^verbatim>\<open>makeApiCall\<close> and returns \<^verbatim>\<open>res !== null || true\<close>; an error thrown
  by \<^verbatim>\<open>makeApiCall\<close> passes through.
\<close>

definition wrapper_result ::
  "(js_error + 'a option) \<times> storage \<times> api_event list \<Rightarrow> (js_error + bool) \<times> storage \<times> api_event list" where
  "wrapper_result call =
     (case call of
        (Inl e, st, evs) \<Rightarrow> (Inl e, st, evs)
      | (Inr res, st, evs) \<Rightarrow> (Inr (res \<noteq> None \<or> True), st, evs))"

definition playUris ::
  "'a api_env \<Rightarrow> uri list \<Rightarrow> string option \<Rightarrow> int option \<Rightarrow> storage
     \<Rightarrow> (js_error + bool) \<times> storage \<times> api_event list" where
  "playUris env uris deviceId positionMs st =
     wrapper_result (makeApiCall env (PLAY deviceId)
       \<lparr>http_method = Some ''PUT'', body = Some (UrisBody uris positionMs)\<rparr> st)"

definition resume ::
  "'a api_env \<Rightarrow> string option \<Rightarrow> storage \<Rightarrow> (js_error + bool) \<times> storage \<times> api_event list" where
  "resume env deviceId st =
     wrapper_result (makeApiCall env (PLAY deviceId) \<lparr>http_method = Some ''PUT'', body = None\<rparr> st)"

definition pause ::
  "'a api_env \<Rightarrow> string option \<Rightarrow> storage \<Rightarrow> (js_error + bool) \<times> storage \<times> api_event list" where
  "pause env deviceId st =
     wrapper_result (makeApiCall env (PAUSE deviceId) \<lparr>http_method = Some ''PUT'', body = None\<rparr> st)"

text \<open>\<^verbatim>\<open>next\<close> of the source; the name is reserved in Isabelle.\<close>

definition next_track ::
  "'a api_env \<Rightarrow> string option \<Rightarrow> storage \<Rightarrow> (js_error + bool) \<times> storage \<times> api_event list" where
  "next_track env deviceId st =
     wrapper_result (makeApiCall env (NEXT deviceId) \<lparr>http_method = Some ''POST'', body = None\<rparr> st)"

definition previous ::
  "'a api_env \<Rightarrow> string option \<Rightarrow> storage \<Rightarrow> (js_error + bool) \<times> storage \<times> api_event list" where
  "previous env deviceId st =
     wrapper_result (makeApiCall env (PREVIOUS deviceId) \<lparr>http_method = Some ''POST'', body = None\<rparr> st)"

definition setShuffle ::
  "'a api_env \<Rightarrow> bool \<Rightarrow> string option \<Rightarrow> storage
     \<Rightarrow> (js_error + bool) \<times> storage \<times> api_event list" where
  "setShuffle env enabled deviceId st =
     wrapper_result (makeApiCall env (SHUFFLE enabled deviceId)
       \<lparr>http_method = Some ''PUT'', body = None\<rparr> st)"

definition transferPlayback ::
  "'a api_env \<Rightarrow> string \<Rightarrow> bool \<Rightarrow> storage \<Rightarrow> (js_error + bool) \<times> storage \<times> api_event list" where
  "transferPlayback env deviceId play st =
     wrapper_result (makeApiCall env TRANSFER
       \<lparr>http_method = Some ''PUT'', body = Some (DeviceIdsBody [deviceId] play)\<rparr> st)"

definition addToQueue ::
  "'a api_env \<Rightarrow> uri \<Rightarrow> string option \<Rightarrow> storage
     \<Rightarrow> (js_error + bool) \<times> storage \<times> api_event list" where
  "addToQueue env uri deviceId st =
     wrapper_result (makeApiCall env (QUEUE uri deviceId)
       \<lparr>http_method = Some ''POST'', body = None\<rparr> st)"

section \<open>Bulk collection fetcher (getPlaylistTracks, getUserSavedTracks)\<close>

text \<open>
  One element of \<^verbatim>\<open>items\<close> with its \<^verbatim>\<open>track\<close> property, which the code expects to be
  \<^verbatim>\<open>null\<close> at times; a page with \<^verbatim>\<open>items\<close> (possibly missing) and \<^verbatim>\<open>total\<close>. The other
  properties (\<^verbatim>\<open>added_at\<close>, \<^verbatim>\<open>next\<close>) are not read by the two fetchers.
\<close>

record 't item =
  track :: "'t option"

record 't page =
  items :: "'t item list option"
  page_total :: int

definition limit :: nat where
  "limit = 50"

definition CONCURRENT_REQUESTS :: nat where
  "CONCURRENT_REQUESTS = 5"

datatype fetch_event = Call url | Delay nat

text \<open>\<^verbatim>\<open>items.map(item => item.track).filter(track => track !== null)\<close>\<close>

definition page_tracks :: "'t item list \<Rightarrow> 't list" where
  "page_tracks its = map the (filter (\<lambda>t. t \<noteq> None) (map track its))"

text \<open>
  The promise built for one page after the first: \<^verbatim>\<open>.then\<close> maps a missing page to the
  empty list and \<^verbatim>\<open>.catch\<close> maps a thrown error to the empty list.
\<close>

definition page_promise :: "js_error + 't page option \<Rightarrow> 't list" where
  "page_promise res =
     (case res of
        Inl error \<Rightarrow> []
      | Inr None \<Rightarrow> []
      | Inr (Some data) \<Rightarrow> (case items data of None \<Rightarrow> [] | Some its \<Rightarrow> page_tracks its))"

text \<open>
  The outer loop \<^verbatim>\<open>for (let i = 0; i < remainingPages; i += CONCURRENT_REQUESTS)\<close>. \<open>api u\<close> is
  what \<^verbatim>\<open>makeApiCall\<close> results in for the page at \<open>u\<close>; \<open>mk offset\<close> is the URL of the page
  at that offset. The inner loop issues the requests of one window in the order of \<open>j\<close>,
  and \<^verbatim>\<open>Promise.all\<close> gives their results in that order.
\<close>

function batches ::
  "(url \<Rightarrow> js_error + 't page option) \<Rightarrow> (nat \<Rightarrow> url) \<Rightarrow> int \<Rightarrow> nat \<Rightarrow> 't list \<Rightarrow> fetch_event list
     \<Rightarrow> 't list \<times> fetch_event list" where
  "batches api mk remainingPages i tracks evs =
     (if int i < remainingPages then
        let offsets = map (\<lambda>j. (i + j + 1) * limit)
                        (takeWhile (\<lambda>j. int (i + j) < remainingPages) [0..<CONCURRENT_REQUESTS]);
            batchResults = map (\<lambda>offset. page_promise (api (mk offset))) offsets;
            tracks' = tracks @ concat batchResults;
            evs' = evs @ map (\<lambda>offset. Call (mk offset)) offsets @
                     (if int (i + CONCURRENT_REQUESTS) < remainingPages then [Delay 100] else [])
        in batches api mk remainingPages (i + CONCURRENT_REQUESTS) tracks' evs'
      else (tracks, evs))"
  by pat_completeness auto
termination
  by (relation "measure (\<lambda>(api, mk, remainingPages, i, tracks, evs). nat (remainingPages - int i))")
     (auto simp: CONCURRENT_REQUESTS_def)

declare batches.simps [simp del]

text \<open>
  The part the two fetchers share, from the first page on. The result is \<open>Inl\<close> when the
  first call throws (the page calls of the loop catch their own errors).
\<close>

definition fetch_all ::
  "(url \<Rightarrow> js_error + 't page option) \<Rightarrow> (nat \<Rightarrow> url) \<Rightarrow> (js_error + 't list) \<times> fetch_event list" where
  "fetch_all api mk =
     (case api (mk 0) of
        Inl error \<Rightarrow> (Inl error, [Call (mk 0)])
      | Inr None \<Rightarrow> (Inr [], [Call (mk 0)])
      | Inr (Some firstPage) \<Rightarrow>
          (case items firstPage of
             None \<Rightarrow> (Inr [], [Call (mk 0)])
           | Some its \<Rightarrow>
               let totalTracks = page_total firstPage;
                   tracks = page_tracks its
               in if length its < limit \<or> totalTracks \<le> int limit then (Inr tracks, [Call (mk 0)])
                  else
                    let remainingTracks = totalTracks - int limit;
                        remainingPages = \<lceil>real_of_int remainingTracks / real limit\<rceil>
                    in (case batches api mk remainingPages 0 tracks [Call (mk 0)] of
                          (ts, evs) \<Rightarrow> (Inr ts, evs))))"

text \<open>\<^verbatim>\<open>getPlaylistTracks\<close>: its \<^verbatim>\<open>catch\<close> logs the error and throws it again.\<close>

definition getPlaylistTracks ::
  "(url \<Rightarrow> js_error + 't page option) \<Rightarrow> string \<Rightarrow> (js_error + 't list) \<times> fetch_event list" where
  "getPlaylistTracks api playlistId = fetch_all api (\<lambda>offset. PLAYLIST_TRACKS playlistId limit offset)"

text \<open>
  \<^verbatim>\<open>getUserSavedTracks\<close>: its \<^verbatim>\<open>catch\<close> returns the empty list for an error with status 403
  or a message containing \<^verbatim>\<open>Insufficient client scope\<close>, and throws every other error again.
\<close>

definition getUserSavedTracks ::
  "(url \<Rightarrow> js_error + 't page option) \<Rightarrow> (js_error + 't list) \<times> fetch_event list" where
  "getUserSavedTracks api =
     (case fetch_all api (\<lambda>offset. SAVED_TRACKS limit (Some offset)) of
        (Inl error, evs) \<Rightarrow>
          if err_status error = Some 403 \<or>
             (err_message error \<noteq> [] \<and> str_includes (err_message error) ''Insufficient client scope'')
          then (Inr [], evs)
          else (Inl error, evs)
      | (Inr tracks, evs) \<Rightarrow> (Inr tracks, evs))"

text \<open>\<^verbatim>\<open>makeApiCall(url)\<close> without options, as the fetchers and the scope probe call it.\<close>

definition no_options :: options where
  "no_options = \<lparr>http_method = None, body = None\<rparr>"

text \<open>
  \<^verbatim>\<open>hasRequiredScopes\<close>: false only when \<^verbatim>\<open>makeApiCall\<close> throws an error whose message
  contains \<^verbatim>\<open>Insufficient client scope\<close>.
\<close>

definition hasRequiredScopes :: "'a api_env \<Rightarrow> storage \<Rightarrow> bool" where
  "hasRequiredScopes env st =
     (case fst (makeApiCall env (SAVED_TRACKS 1 None) no_options st) of
        Inr res \<Rightarrow> True
      | Inl error \<Rightarrow>
          if str_includes (err_message error) ''Insufficient client scope'' then False else True)"

section \<open>The unbiased shuffle (src/utils/spotify.ts, trueRandomShuffle)\<close>

text \<open>
  \<^verbatim>\<open>getSecureRandom()\<close> is the only source of randomness of the shuffle. Each of its three
  branches (Web Crypto, Node crypto, the \<^verbatim>\<open>Math.random\<close> fallback reduced \<^verbatim>\<open>% 1\<close>) returns a
  number in the half-open interval from 0 to 1. The model takes the successive results as a
  stream: \<open>rnd k\<close> is what the \<open>k\<close>-th call returns.

  The loop \<^verbatim>\<open>for (let i = shuffled.length - 1; i > 0; i--)\<close> is the recursion on \<open>i\<close>; the
  destructuring swap reads both cells before it writes either of them.
\<close>

fun shuffle_loop :: "(nat \<Rightarrow> real) \<Rightarrow> nat \<Rightarrow> nat \<Rightarrow> 'a list \<Rightarrow> 'a list" where
  "shuffle_loop rnd k 0 shuffled = shuffled"
| "shuffle_loop rnd k (Suc i') shuffled =
     (let i = Suc i';
          randomValue = rnd k;
          j = nat \<lfloor>randomValue * real (i + 1)\<rfloor>
      in shuffle_loop rnd (Suc k) i' (shuffled[i := shuffled ! j, j := shuffled ! i]))"

definition trueRandomShuffle :: "(nat \<Rightarrow> real) \<Rightarrow> 'a list \<Rightarrow> 'a list" where
  "trueRandomShuffle rnd array = shuffle_loop rnd 0 (length array - 1) array"

section \<open>Queue submission pipeline (batchQueueTracks)\<close>

record SpotifyTrack =
  track_id :: string
  track_name :: string
  uri :: uri

datatype queue_event =
    AddToQueue uri string
  | Timeout nat
  | OnProgress nat nat

definition maxRetries :: nat where
  "maxRetries = 3"

text \<open>
  The classification of a caught error:
  \<^verbatim>\<open>error?.status === 429 || (error?.message && error.message.includes('429'))\<close>.
\<close>

definition is_429 :: "js_error \<Rightarrow> bool" where
  "is_429 error =
     (err_status error = Some 429 \<or> (err_message error \<noteq> [] \<and> str_includes (err_message error) ''429''))"

text \<open>
  The loop \<^verbatim>\<open>while (!success && retryCount <= maxRetries)\<close> for one track, entered with
  \<^verbatim>\<open>success\<close> false. \<open>result k\<close> is the outcome of the call of \<^verbatim>\<open>addToQueue\<close> made when
  \<^verbatim>\<open>retryCount\<close> is \<open>k\<close>: \<open>Inr\<close> when it returns, \<open>Inl\<close> the error it throws. The function
  returns the final value of \<^verbatim>\<open>success\<close> and the calls and waits made, in order; the wait
  \<^verbatim>\<open>Math.pow(2, retryCount - 1) * 1000\<close> is made only while \<^verbatim>\<open>retryCount <= maxRetries\<close>.
\<close>

function retry_loop ::
  "(nat \<Rightarrow> js_error + bool) \<Rightarrow> uri \<Rightarrow> string \<Rightarrow> nat \<Rightarrow> bool \<times> queue_event list" where
  "retry_loop result u deviceId retryCount =
     (if retryCount \<le> maxRetries then
        (case result retryCount of
           Inr r \<Rightarrow> (True, [AddToQueue u deviceId])
         | Inl error \<Rightarrow>
             if is_429 error then
               (case retry_loop result u deviceId (retryCount + 1) of
                  (success, evs) \<Rightarrow>
                    (success,
                     AddToQueue u deviceId #
                     (if retryCount + 1 \<le> maxRetries
                      then [Timeout (2 ^ (retryCount + 1 - 1) * 1000)] else []) @ evs))
             else (False, [AddToQueue u deviceId]))
      else (False, []))"
  by pat_completeness auto
termination
  by (relation "measure (\<lambda>(result, u, deviceId, retryCount). Suc maxRetries - retryCount)") auto

declare retry_loop.simps [simp del]

text \<open>
  The loop over the tracks. \<open>result i k\<close> is the outcome of the call for the track at index
  \<open>i\<close> made when \<^verbatim>\<open>retryCount\<close> is \<open>k\<close>. After the retry loop of a track the counter is
  incremented and \<^verbatim>\<open>onProgress\<close> is called; the 150 ms wait is skipped after the last track.
\<close>

function batch_loop ::
  "(nat \<Rightarrow> nat \<Rightarrow> js_error + bool) \<Rightarrow> uri list \<Rightarrow> string \<Rightarrow> nat \<Rightarrow> nat \<Rightarrow> nat \<times> queue_event list" where
  "batch_loop result trackUris deviceId i completed =
     (if i < length trackUris then
        (case batch_loop result trackUris deviceId (i + 1) (completed + 1) of
           (final, evs) \<Rightarrow>
             (final,
              snd (retry_loop (result i) (trackUris ! i) deviceId 0) @
              [OnProgress (completed + 1) (length trackUris)] @
              (if i < length trackUris - 1 then [Timeout 150] else []) @ evs))
      else (completed, []))"
  by pat_completeness auto
termination
  by (relation "measure (\<lambda>(result, trackUris, deviceId, i, completed). length trackUris - i)") auto

declare batch_loop.simps [simp del]

text \<open>
  \<^verbatim>\<open>batchQueueTracks\<close>: the final value of \<^verbatim>\<open>completed\<close> and everything the run did, in order.
\<close>

definition batchQueueTracks ::
  "(nat \<Rightarrow> nat \<Rightarrow> js_error + bool) \<Rightarrow> SpotifyTrack list \<Rightarrow> string \<Rightarrow> nat \<times> queue_event list" where
  "batchQueueTracks result tracks deviceId = batch_loop result (map uri tracks) deviceId 0 0"

text \<open>
  Vocabulary for the statements about the pipeline: an outcome that the \<^verbatim>\<open>catch\<close> block
  classifies as rate-limited, the events of the loop body for the track at index \<open>i\<close> when
  the counter is \<open>i\<close> on entry, and the arguments of the calls of \<^verbatim>\<open>onProgress\<close> in a run.
\<close>

definition rate_limited :: "js_error + bool \<Rightarrow> bool" where
  "rate_limited r = (case r of Inl error \<Rightarrow> is_429 error | Inr b \<Rightarrow> False)"

definition body_events ::
  "(nat \<Rightarrow> nat \<Rightarrow> js_error + bool) \<Rightarrow> uri list \<Rightarrow> string \<Rightarrow> nat \<Rightarrow> queue_event list" where
  "body_events result trackUris deviceId i =
     snd (retry_loop (result i) (trackUris ! i) deviceId 0) @
     [OnProgress (i + 1) (length trackUris)] @
     (if i < length trackUris - 1 then [Timeout 150] else [])"

definition progress_events :: "queue_event list \<Rightarrow> (nat \<times> nat) list" where
  "progress_events evs = concat (map (\<lambda>e. case e of OnProgress p t \<Rightarrow> [(p, t)] | _ \<Rightarrow> []) evs)"

section \<open>Shuffle-and-queue orchestrator (useQueueShuffleMutation, mutationFn)\<close>

definition MAX_QUEUE_SIZE :: nat where
  "MAX_QUEUE_SIZE = 150"

record SpotifyPlaylist =
  playlist_id :: string
  playlist_uri :: string

record QueueShuffleParams =
  playlist :: SpotifyPlaylist
  tracks :: "SpotifyTrack list option"

text \<open>The message of a progress update, with the numbers its template interpolates.\<close>

datatype progress_message =
    QueueingRandomlySelected nat
  | PreparingQueue
  | QueuedOfSongs nat nat nat nat
  | QueuedOfTracks nat nat
  | QueuedRandomSongs nat

record QueueShuffleProgress =
  isQueueing :: bool
  progress :: nat
  total :: nat
  message :: "progress_message option"

datatype mutation_event =
    FetchSavedTracks
  | FetchPlaylistTracks string
  | EnsureActiveDevice uri string
  | TransferPlayback string bool
  | PlayUris "uri list" string
  | Pipeline queue_event
  | ProgressUpdate QueueShuffleProgress
  | SetTimeout nat QueueShuffleProgress

text \<open>
  What the collaborators of one run do: the two track queries of the query client (\<open>Inl\<close>
  when the query throws, a cancellation included), the random source, the device that
  \<^verbatim>\<open>ensureActiveDevice\<close> resolves, and the outcomes of the playback calls.
\<close>

record mutation_env =
  savedTracksQuery :: "js_error + SpotifyTrack list"
  playlistTracksQuery :: "string \<Rightarrow> js_error + SpotifyTrack list"
  getSecureRandom :: "nat \<Rightarrow> real"
  ensureActiveDevice :: "string option"
  transferPlayback_result :: "js_error + bool"
  playUris_result :: "js_error + bool"
  addToQueue_result :: "nat \<Rightarrow> nat \<Rightarrow> js_error + bool"

text \<open>
  The first step: the caller's list is used unless it is missing, empty or has a track whose
  \<^verbatim>\<open>uri\<close> is \<^verbatim>\<open>null\<close>; otherwise the saved tracks (playlist \<^verbatim>\<open>liked-songs\<close>) or the
  playlist's tracks are fetched.
\<close>

definition resolve_tracks ::
  "mutation_env \<Rightarrow> QueueShuffleParams \<Rightarrow> (js_error + SpotifyTrack list) \<times> mutation_event list" where
  "resolve_tracks env variables =
     (let fetched =
            (if playlist_id (playlist variables) = ''liked-songs''
             then (savedTracksQuery env, [FetchSavedTracks])
             else (playlistTracksQuery env (playlist_id (playlist variables)),
                   [FetchPlaylistTracks (playlist_id (playlist variables))]))
      in case tracks variables of
           None \<Rightarrow> fetched
         | Some ts \<Rightarrow>
             if ts = [] \<or> list_ex (\<lambda>t. uri t = None) ts then fetched else (Inr ts, []))"

text \<open>The \<^verbatim>\<open>onProgress\<close> callback handed to the pipeline, and the other events passed on.\<close>

definition forward :: "bool \<Rightarrow> queue_event \<Rightarrow> mutation_event" where
  "forward large e =
     (case e of
        OnProgress p t \<Rightarrow>
          ProgressUpdate \<lparr>isQueueing = True, progress = p, total = t,
            message = Some (if large then QueuedOfSongs p t (p + 1) MAX_QUEUE_SIZE
                            else QueuedOfTracks p t)\<rparr>
      | _ \<Rightarrow> Pipeline e)"

text \<open>
  The second and third step of the run (batch queueing, finalising): the first progress
  update, the pipeline on \<open>tracksToQueue\<close>, the last update and, for a list above the cap,
  the update scheduled 2 s later.
\<close>

definition drain_queue ::
  "mutation_env \<Rightarrow> bool \<Rightarrow> SpotifyTrack list \<Rightarrow> string \<Rightarrow> mutation_event list" where
  "drain_queue env large tracksToQueue ensuredDeviceId =
     (let totalToQueue = length tracksToQueue
      in [ProgressUpdate \<lparr>isQueueing = True, progress = 0, total = totalToQueue,
            message = Some (if large then QueueingRandomlySelected MAX_QUEUE_SIZE
                            else PreparingQueue)\<rparr>] @
         map (forward large)
           (snd (batchQueueTracks (addToQueue_result env) tracksToQueue ensuredDeviceId)) @
         [ProgressUpdate \<lparr>isQueueing = False, progress = totalToQueue, total = totalToQueue,
            message = (if large then Some (QueuedRandomSongs MAX_QUEUE_SIZE) else None)\<rparr>] @
         (if large
          then [SetTimeout 2000 \<lparr>isQueueing = False, progress = totalToQueue,
                  total = totalToQueue, message = None\<rparr>]
          else []))"

text \<open>The run from the shuffle on, for a resolved list that is not empty.\<close>

definition shuffle_and_queue ::
  "mutation_env \<Rightarrow> SpotifyPlaylist \<Rightarrow> SpotifyTrack list \<Rightarrow> (js_error + bool) \<times> mutation_event list" where
  "shuffle_and_queue env pl ts =
     (let freshShuffled = trueRandomShuffle (getSecureRandom env) ts;
          first = freshShuffled ! 0;
          rest = drop 1 freshShuffled;
          tracksToQueue = take (MAX_QUEUE_SIZE - 1) rest;
          large = (length ts > MAX_QUEUE_SIZE);
          playlistUri = (if playlist_id pl = ''liked-songs'' then ''spotify:collection:tracks''
                         else playlist_uri pl);
          device = EnsureActiveDevice (uri first) playlistUri
      in case ensureActiveDevice env of
           None \<Rightarrow> (Inr False, [device])
         | Some ensuredDeviceId \<Rightarrow>
             if ensuredDeviceId = [] then (Inr False, [device])
             else
               (case transferPlayback_result env of
                  Inl error \<Rightarrow> (Inl error, [device, TransferPlayback ensuredDeviceId True])
                | Inr transferred \<Rightarrow>
                    (case playUris_result env of
                       Inl error \<Rightarrow>
                         (Inl error,
                          [device, TransferPlayback ensuredDeviceId True,
                           PlayUris [uri first] ensuredDeviceId])
                     | Inr played \<Rightarrow>
                         (Inr True,
                          [device, TransferPlayback ensuredDeviceId True,
                           PlayUris [uri first] ensuredDeviceId] @
                          drain_queue env large tracksToQueue ensuredDeviceId))))"

definition mutationFn ::
  "mutation_env \<Rightarrow> QueueShuffleParams \<Rightarrow> (js_error + bool) \<times> mutation_event list" where
  "mutationFn env variables =
     (case resolve_tracks env variables of
        (Inl error, evs) \<Rightarrow> (Inl error, evs)
      | (Inr ts, evs) \<Rightarrow>
          if ts = [] then (Inr False, evs)
          else (case shuffle_and_queue env (playlist variables) ts of
                  (res, evs') \<Rightarrow> (res, evs @ evs')))"

section \<open>Example runs\<close>

text \<open>
  The ten-track run of the specification: the track at index 3 is answered with 429 three
  times and then accepted, the track at index 6 fails with an error that is not a 429.
\<close>

definition example_track :: "nat \<Rightarrow> SpotifyTrack" where
  "example_track n =
     \<lparr>track_id = replicate n (CHR ''t''), track_name = [], uri = Some (replicate n (CHR ''t''))\<rparr>"

definition example_tracks :: "SpotifyTrack list" where
  "example_tracks = map example_track [0..<10]"

definition example_result :: "nat \<Rightarrow> nat \<Rightarrow> js_error + bool" where
  "example_result i k =
     (if i = 3 \<and> k < 3 then Inl (Error ''Rate limit exceeded (429). Retry after: 1 seconds'')
      else if i = 6 then Inl (Error ''No access token available'')
      else Inr True)"

text \<open>A provider that answers every submission with 429.\<close>

definition always_429 :: "nat \<Rightarrow> nat \<Rightarrow> js_error + bool" where
  "always_429 i k = Inl (Error ''Rate limit exceeded (429). Retry after: unknown seconds'')"

text \<open>A store with a token that has not expired at time 1000000, and three responses.\<close>

definition example_store :: storage where
  "example_store =
     \<lparr>spotify_access_token = Some ''a0'', spotify_refresh_token = Some ''r0'',
      spotify_code_verifier = None, spotify_access_expiry_ts = Some 2000000\<rparr>"

definition example_response :: "nat \<Rightarrow> unit response" where
  "example_response code =
     \<lparr>status = code, content_type = None, retry_after = None,
      json = Inl (Error ''Unexpected end of JSON input''), error_message = None\<rparr>"

definition example_token :: token_data where
  "example_token = \<lparr>access_token = Some ''a1'', refresh_token = None, expires_in = Some 3600\<rparr>"

text \<open>
  The store between \<^verbatim>\<open>authenticate\<close> and the exchange (only the code verifier is there),
  and a token response of the authorization-code grant.
\<close>

definition example_pending :: storage where
  "example_pending =
     \<lparr>spotify_access_token = None, spotify_refresh_token = None,
      spotify_code_verifier = Some ''verifier'', spotify_access_expiry_ts = None\<rparr>"

definition example_grant :: token_data where
  "example_grant = \<lparr>access_token = Some ''a1'', refresh_token = Some ''r1'', expires_in = Some 3600\<rparr>"

text \<open>The first response is a 401, the refresh succeeds, the retry is a 401 again.\<close>

definition env_401_401 :: "unit api_env" where
  "env_401_401 =
     \<lparr>date_now = 1000000, proactive_refresh = TokenFailed,
      first_reply = Response (example_response 401),
      reactive_refresh = TokenJson example_token,
      retry_reply = Response (example_response 401)\<rparr>"

text \<open>The first response is \<open>code\<close>; no refresh and no retry succeeds.\<close>

definition env_status :: "nat \<Rightarrow> unit api_env" where
  "env_status code =
     \<lparr>date_now = 1000000, proactive_refresh = TokenFailed,
      first_reply = Response (example_response code),
      reactive_refresh = TokenFailed,
      retry_reply = NetworkError (Error ''Network request failed'')\<rparr>"

text \<open>A playlist of 137 tracks (numbered 0 to 136) served in pages, each reporting the total.\<close>

definition example_api :: "url \<Rightarrow> js_error + nat page option" where
  "example_api u =
     (case u of
        PLAYLIST_TRACKS playlistId n offset \<Rightarrow>
          Inr (Some \<lparr>items = Some (map (\<lambda>t. \<lparr>track = Some t\<rparr>) (take n (drop offset [0..<137]))),
                     page_total = 137\<rparr>)
      | _ \<Rightarrow> Inr None)"

text \<open>The provider answers 403 with the message of a missing scope.\<close>

definition env_insufficient_scope :: "nat page api_env" where
  "env_insufficient_scope =
     \<lparr>date_now = 1000000, proactive_refresh = TokenFailed,
      first_reply = Response
        \<lparr>status = 403, content_type = Some ''application/json'', retry_after = None,
         json = Inr \<lparr>items = None, page_total = 0\<rparr>,
         error_message = Some ''Insufficient client scope''\<rparr>,
      reactive_refresh = TokenFailed,
      retry_reply = NetworkError (Error ''Network request failed'')\<rparr>"

text \<open>
  A run of the orchestrator on a playlist with the caller's track list, every draw of the
  random source being 1/2, with the device given.
\<close>

definition example_env :: "string option \<Rightarrow> mutation_env" where
  "example_env device =
     \<lparr>savedTracksQuery = Inr [], playlistTracksQuery = (\<lambda>playlistId. Inr []),
      getSecureRandom = (\<lambda>k. 1 / 2), ensureActiveDevice = device,
      transferPlayback_result = Inr True, playUris_result = Inr True,
      addToQueue_result = example_result\<rparr>"

definition example_variables :: "SpotifyTrack list \<Rightarrow> QueueShuffleParams" where
  "example_variables ts =
     \<lparr>playlist = \<lparr>playlist_id = ''p1'', playlist_uri = ''spotify:playlist:p1''\<rparr>,
      tracks = Some ts\<rparr>"

section \<open>Properties of the shuffle\<close>

text \<open>
  A draw from the unit interval gives a swap index between 0 and \<open>i\<close>, so every step of the
  loop exchanges two cells of the array.
\<close>

lemma random_index_in_range:
  assumes "0 \<le> r" and "r < 1"
  shows "nat \<lfloor>r * real (Suc i)\<rfloor> \<le> i"
proof -
  have "r * real (Suc i) < real (Suc i)"
    using assms by simp
  then have "\<lfloor>r * real (Suc i)\<rfloor> < int (Suc i)"
    by (simp add: floor_less_iff)
  then show ?thesis by simp
qed

lemma shuffle_loop_mset:
  assumes "\<forall>k. 0 \<le> rnd k \<and> rnd k < 1" and "i < length xs"
  shows "mset (shuffle_loop rnd k i xs) = mset xs"
  using assms(2)
proof (induction i arbitrary: k xs)
  case 0
  then show ?case by simp
next
  case (Suc i')
  let ?j = "nat \<lfloor>rnd k * real (Suc (Suc i'))\<rfloor>"
  have j: "?j \<le> Suc i'"
    using assms(1) random_index_in_range by blast
  let ?ys = "xs[Suc i' := xs ! ?j, ?j := xs ! Suc i']"
  have "mset ?ys = mset xs"
    using Suc.prems j by (simp add: mset_swap)
  moreover have "mset (shuffle_loop rnd (Suc k) i' ?ys) = mset ?ys"
    using Suc.prems by (intro Suc.IH) simp
  ultimately show ?case by (simp add: Let_def)
qed

lemma trueRandomShuffle_mset:
  assumes "\<forall>k. 0 \<le> rnd k \<and> rnd k < 1"
  shows "mset (trueRandomShuffle rnd S) = mset S"
proof (cases S)
  case Nil
  then show ?thesis by (simp add: trueRandomShuffle_def)
next
  case (Cons a as)
  then show ?thesis
    unfolding trueRandomShuffle_def using assms by (intro shuffle_loop_mset) simp_all
qed

lemma trueRandomShuffle_length:
  assumes "\<forall>k. 0 \<le> rnd k \<and> rnd k < 1"
  shows "length (trueRandomShuffle rnd S) = length S"
  using trueRandomShuffle_mset[OF assms] by (rule mset_eq_length)

text \<open>
  Claim C2. For every input array and every stream of values that the random source can
  return, the result of trueRandomShuffle has the length of the input and the same elements
  with the same multiplicities.
\<close>

theorem trueRandomShuffle_permutation:
  assumes "\<forall>k. 0 \<le> rnd k \<and> rnd k < 1"
  shows "length (trueRandomShuffle rnd S) = length S \<and> mset (trueRandomShuffle rnd S) = mset S"
  by (simp add: trueRandomShuffle_length[OF assms] trueRandomShuffle_mset[OF assms])

theorem trueRandomShuffle_permutation_witness:
  "(\<forall>k::nat. (0::real) \<le> 1 / 2 \<and> (1::real) / 2 < 1) \<and>
   trueRandomShuffle (\<lambda>k. 1 / 2) [10, 20, 30 :: nat] = [10, 30, 20] \<and>
   length (trueRandomShuffle (\<lambda>k. 1 / 2) [10, 20, 30 :: nat]) = 3 \<and>
   mset (trueRandomShuffle (\<lambda>k. 1 / 2) [10, 20, 30 :: nat]) = mset [10, 20, 30]"
  using trueRandomShuffle_permutation [of "\<lambda>k. 1 / 2" "[10, 20, 30 :: nat]"]
  by (simp add: trueRandomShuffle_def Let_def)

section \<open>Properties of the token lifecycle\<close>

text \<open>
  Two general facts about a refresh: whenever it succeeds on a response with a lifetime, the
  expiry left in the store is that lifetime; and a response without a refresh token leaves
  the stored refresh token in place.
\<close>

lemma refreshAccessToken_expiry:
  assumes "refreshAccessToken t (TokenJson d) st = (True, st')"
    and "expires_in d = Some e" and "e \<noteq> 0"
  shows "spotify_access_expiry_ts st' = Some e"
  using assms
  by (auto simp: refreshAccessToken_def Let_def setAccessToken_def
      setRefreshToken_def setAccessTokenExpiryTs_def split: if_splits option.splits)

lemma refreshAccessToken_keeps_refresh_token:
  assumes "refreshAccessToken t (TokenJson d) st = (b, st')" and "refresh_token d = None"
  shows "spotify_refresh_token st' = spotify_refresh_token st"
  using assms
  by (auto simp: refreshAccessToken_def Let_def setAccessToken_def
      setRefreshToken_def setAccessTokenExpiryTs_def split: if_splits option.splits)

text \<open>
  Claim C3. After a successful refresh whose response has a lifetime, the persisted expiry
  should be the time of the refresh plus (expires_in - 30) seconds, and a response without
  a refresh token should leave the stored one in place. The run below refreshes at time
  1000000 ms with a lifetime of 3600 s and no new refresh token: the refresh token is kept,
  but the expiry that ends up in the store is the raw lifetime 3600, not 4570000.
\<close>

theorem refreshAccessToken_persists_raw_lifetime:
  "refreshAccessToken 1000000 (TokenJson example_token) example_store =
     (True, \<lparr>spotify_access_token = Some ''a1'', spotify_refresh_token = Some ''r0'',
             spotify_code_verifier = None, spotify_access_expiry_ts = Some 3600\<rparr>) \<and>
   (3600 :: int) \<noteq> 1000000 + (3600 - 30) * 1000"
  by (simp add: refreshAccessToken_def getRefreshToken_def truthy_def setAccessToken_def
      setRefreshToken_def setAccessTokenExpiryTs_def expiry_from_def example_token_def
      example_store_def)

text \<open>
  Claim C7, as stated: after every exchange attempt, failed ones included, the stored code
  verifier has been deleted. It fails: when the exchange errors or the response has no
  access token, both copies of exchangeCodeForToken return false and leave the verifier in
  the store.
\<close>

theorem exchange_failure_keeps_verifier:
  "exchangeCodeForToken None 1000000 TokenFailed example_pending = (False, example_pending) \<and>
   exchangeCodeForToken None 1000000
     (TokenJson \<lparr>access_token = None, refresh_token = None, expires_in = None\<rparr>)
     example_pending = (False, example_pending) \<and>
   exchangeCodeForToken_redirect 1000000 TokenFailed example_pending = (False, example_pending) \<and>
   exchangeCodeForToken_redirect 1000000
     (TokenJson \<lparr>access_token = None, refresh_token = None, expires_in = None\<rparr>)
     example_pending = (False, example_pending) \<and>
   spotify_code_verifier example_pending = Some ''verifier''"
  by (simp add: exchangeCodeForToken_def exchangeCodeForToken_redirect_def truthy_def
      example_pending_def)

text \<open>
  Claim C7, amended. An exchange attempt that returns true has deleted the stored code
  verifier; an attempt that returns false leaves the verifier as it was. This holds for
  both copies of exchangeCodeForToken.
\<close>

theorem exchange_verifier_deleted_on_success:
  "(fst (exchangeCodeForToken c t reply st) \<longrightarrow>
      spotify_code_verifier (snd (exchangeCodeForToken c t reply st)) = None) \<and>
   (\<not> fst (exchangeCodeForToken c t reply st) \<longrightarrow>
      spotify_code_verifier (snd (exchangeCodeForToken c t reply st)) = spotify_code_verifier st) \<and>
   (fst (exchangeCodeForToken_redirect t reply st) \<longrightarrow>
      spotify_code_verifier (snd (exchangeCodeForToken_redirect t reply st)) = None) \<and>
   (\<not> fst (exchangeCodeForToken_redirect t reply st) \<longrightarrow>
      spotify_code_verifier (snd (exchangeCodeForToken_redirect t reply st)) =
        spotify_code_verifier st)"
  by (auto simp: exchangeCodeForToken_def exchangeCodeForToken_redirect_def Let_def
      setAccessToken_def setRefreshToken_def setAccessTokenExpiryTs_def
      split: token_reply.splits option.splits)

theorem exchange_verifier_deleted_on_success_witness:
  "fst (exchangeCodeForToken None 1000000 (TokenJson example_grant) example_pending) \<and>
   spotify_code_verifier
     (snd (exchangeCodeForToken None 1000000 (TokenJson example_grant) example_pending)) = None \<and>
   fst (exchangeCodeForToken_redirect 1000000 (TokenJson example_grant) example_pending) \<and>
   spotify_code_verifier
     (snd (exchangeCodeForToken_redirect 1000000 (TokenJson example_grant) example_pending)) = None"
proof -
  have a: "fst (exchangeCodeForToken None 1000000 (TokenJson example_grant) example_pending)"
    by (simp add: exchangeCodeForToken_def truthy_def example_grant_def example_pending_def
        Let_def)
  have b: "fst (exchangeCodeForToken_redirect 1000000 (TokenJson example_grant) example_pending)"
    by (simp add: exchangeCodeForToken_redirect_def truthy_def example_grant_def
        example_pending_def Let_def)
  from a b exchange_verifier_deleted_on_success[of None 1000000 "TokenJson example_grant"
      example_pending]
  show ?thesis by blast
qed

section \<open>Properties of the request executor\<close>

text \<open>
  Claim C4, as stated: after a first 401 the executor makes exactly one refresh attempt, and
  a second 401 on the retry surfaces as an authentication failure. It fails on both counts.
  With a 401 on the request and on the retry the call returns \<^verbatim>\<open>null\<close>, which is what a
  204 returns, and the playback wrapper on top of it returns true. With a stored expiry that
  has passed, the call makes two refresh attempts: one before the request, one after the 401.
\<close>

theorem second_401_returns_null:
  "fst (makeApiCall env_401_401 (PLAY None) \<lparr>http_method = Some ''PUT'', body = None\<rparr> example_store)
     = Inr None \<and>
   fst (makeApiCall (env_status 204) (PLAY None) \<lparr>http_method = Some ''PUT'', body = None\<rparr>
          example_store) = Inr None \<and>
   fst (resume env_401_401 None example_store) = Inr True \<and>
   snd (snd (makeApiCall env_401_401 (PLAY None) \<lparr>http_method = Some ''PUT'', body = None\<rparr>
               (example_store\<lparr>spotify_access_expiry_ts := Some 3600\<rparr>)))
     = [RefreshAccessToken, Fetch (PLAY None) ''PUT'' None ''a0'',
        RefreshAccessToken, Fetch (PLAY None) ''PUT'' None ''a0'']"
  by (simp add: makeApiCall_def Let_def ok_def retry_result_def refreshAccessToken_def
      getRefreshToken_def getAccessTokenExpiryTs_def truthy_def setAccessToken_def
      setRefreshToken_def setAccessTokenExpiryTs_def expiry_from_def request_of_def
      env_401_401_def env_status_def example_store_def example_response_def example_token_def
      resume_def wrapper_result_def)

text \<open>
  Claim C4, amended. For every request that is sent and whose first response is a 401, the
  executor makes exactly one refresh attempt after that response (besides at most one made
  before the request, when the stored expiry has passed) and at most one retry of the same
  request, after which it makes no further refresh or retry; when the retry is a 401 too,
  the call returns \<^verbatim>\<open>null\<close>.
\<close>

theorem makeApiCall_one_reactive_refresh:
  assumes "first_reply env = Response r" and "status r = 401"
    and "spotify_access_token st = Some tok" and "tok \<noteq> []"
  shows "snd (snd (makeApiCall env u opts st)) \<in>
           {[request_of u opts tok, RefreshAccessToken],
            [request_of u opts tok, RefreshAccessToken, request_of u opts tok],
            [RefreshAccessToken, request_of u opts tok, RefreshAccessToken],
            [RefreshAccessToken, request_of u opts tok, RefreshAccessToken,
             request_of u opts tok]} \<and>
         (\<forall>r2. retry_reply env = Response r2 \<and> status r2 = 401 \<longrightarrow>
                fst (makeApiCall env u opts st) = Inr None)"
  using assms
  by (auto simp: makeApiCall_def Let_def ok_def retry_result_def split: prod.splits)

theorem makeApiCall_one_reactive_refresh_witness:
  "snd (snd (makeApiCall env_401_401 TRANSFER no_options example_store)) \<in>
     {[request_of TRANSFER no_options ''a0'', RefreshAccessToken],
      [request_of TRANSFER no_options ''a0'', RefreshAccessToken,
       request_of TRANSFER no_options ''a0''],
      [RefreshAccessToken, request_of TRANSFER no_options ''a0'', RefreshAccessToken],
      [RefreshAccessToken, request_of TRANSFER no_options ''a0'', RefreshAccessToken,
       request_of TRANSFER no_options ''a0'']} \<and>
   fst (makeApiCall env_401_401 TRANSFER no_options example_store) = Inr None"
proof -
  have "first_reply env_401_401 = Response (example_response 401)"
    and "status (example_response 401) = 401"
    and "spotify_access_token example_store = Some ''a0''"
    and "retry_reply env_401_401 = Response (example_response 401)"
    by (simp_all add: env_401_401_def example_response_def example_store_def)
  with makeApiCall_one_reactive_refresh[of env_401_401 "example_response 401" example_store
      "''a0''" TRANSFER no_options]
  show ?thesis by simp
qed

section \<open>Properties of the playback controls\<close>

lemma wrapper_result_true:
  "isl (fst (wrapper_result c)) \<or> fst (wrapper_result c) = Inr True"
  by (auto simp: wrapper_result_def split: prod.splits sum.splits)

text \<open>
  Claim C10. Each of playUris, resume, pause, next, previous, setShuffle, transferPlayback and
  addToQueue either throws or returns true, whatever the HTTP call did: false is never
  returned.
\<close>

theorem playback_wrappers_return_true:
  "(isl (fst (playUris env uris deviceId positionMs st)) \<or>
      fst (playUris env uris deviceId positionMs st) = Inr True) \<and>
   (isl (fst (resume env deviceId st)) \<or> fst (resume env deviceId st) = Inr True) \<and>
   (isl (fst (pause env deviceId st)) \<or> fst (pause env deviceId st) = Inr True) \<and>
   (isl (fst (next_track env deviceId st)) \<or> fst (next_track env deviceId st) = Inr True) \<and>
   (isl (fst (previous env deviceId st)) \<or> fst (previous env deviceId st) = Inr True) \<and>
   (isl (fst (setShuffle env enabled deviceId st)) \<or>
      fst (setShuffle env enabled deviceId st) = Inr True) \<and>
   (isl (fst (transferPlayback env device play st)) \<or>
      fst (transferPlayback env device play st) = Inr True) \<and>
   (isl (fst (addToQueue env u deviceId st)) \<or> fst (addToQueue env u deviceId st) = Inr True)"
  unfolding playUris_def resume_def pause_def next_track_def previous_def setShuffle_def
    transferPlayback_def addToQueue_def
  by (intro conjI wrapper_result_true)

text \<open>
  The three kinds of outcome at concrete responses: a 204 (success), a 404 (rejected) and a
  429 (thrown).
\<close>

theorem playback_wrappers_return_true_witness:
  "fst (playUris (env_status 204) [Some ''spotify:track:1''] (Some ''device'') None
          example_store) = Inr True \<and>
   fst (playUris (env_status 404) [Some ''spotify:track:1''] (Some ''device'') None
          example_store) = Inr True \<and>
   isl (fst (addToQueue (env_status 429) (Some ''spotify:track:1'') (Some ''device'')
          example_store))"
proof -
  have a: "\<not> isl (fst (playUris (env_status 204) [Some ''spotify:track:1''] (Some ''device'') None
          example_store))"
    by (simp add: playUris_def wrapper_result_def makeApiCall_def Let_def env_status_def
        example_store_def example_response_def getAccessTokenExpiryTs_def)
  have b: "\<not> isl (fst (playUris (env_status 404) [Some ''spotify:track:1''] (Some ''device'') None
          example_store))"
    by (simp add: playUris_def wrapper_result_def makeApiCall_def Let_def env_status_def
        example_store_def example_response_def getAccessTokenExpiryTs_def ok_def)
  have c: "isl (fst (addToQueue (env_status 429) (Some ''spotify:track:1'') (Some ''device'')
          example_store))"
    by (simp add: addToQueue_def wrapper_result_def makeApiCall_def Let_def env_status_def
        example_store_def example_response_def getAccessTokenExpiryTs_def ok_def
        catch_block_def rate_limit_error_def Error_def)
  from a b c
    playback_wrappers_return_true[of "env_status 204" "[Some ''spotify:track:1'']"
      "Some ''device''" None example_store]
    playback_wrappers_return_true[of "env_status 404" "[Some ''spotify:track:1'']"
      "Some ''device''" None example_store]
  show ?thesis by blast
qed

section \<open>Properties of the queue submission pipeline\<close>

text \<open>
  The loop over the tracks is the concatenation of its bodies, and the counter equals the
  index on entry to each body.
\<close>

lemma batch_loop_unfold:
  "c = i \<Longrightarrow> i \<le> length us \<Longrightarrow>
   batch_loop result us d i c =
     (length us, concat (map (body_events result us d) [i..<length us]))"
proof (induction result us d i c rule: batch_loop.induct)
  case (1 result us d i c)
  show ?case
  proof (cases "i < length us")
    case True
    then have "batch_loop result us d (i + 1) (c + 1) =
        (length us, concat (map (body_events result us d) [i + 1..<length us]))"
      using 1 by simp
    then show ?thesis
      using True "1.prems"
      by (subst batch_loop.simps) (simp add: upt_conv_Cons body_events_def)
  next
    case False
    then show ?thesis
      using "1.prems" by (subst batch_loop.simps) simp
  qed
qed

lemma batchQueueTracks_unfold:
  "batchQueueTracks result ts d =
     (length ts, concat (map (body_events result (map uri ts) d) [0..<length ts]))"
  unfolding batchQueueTracks_def by (simp add: batch_loop_unfold)

lemma retry_loop_events:
  "set (snd (retry_loop result u d k)) \<subseteq> insert (AddToQueue u d) (range Timeout)"
proof (induction result u d k rule: retry_loop.induct)
  case (1 result u d retryCount)
  show ?case
  proof (cases "retryCount \<le> maxRetries")
    case True
    show ?thesis
    proof (cases "result retryCount")
      case (Inl error)
      show ?thesis
      proof (cases "is_429 error")
        case t: True
        from 1[OF True Inl t] True Inl t show ?thesis
          by (subst retry_loop.simps) (auto split: prod.splits)
      next
        case False
        with True Inl show ?thesis by (subst retry_loop.simps) simp
      qed
    next
      case (Inr b)
      with True show ?thesis by (subst retry_loop.simps) simp
    qed
  next
    case False
    then show ?thesis by (subst retry_loop.simps) simp
  qed
qed

lemma retry_loop_first:
  "\<exists>rest. snd (retry_loop result u d 0) = AddToQueue u d # rest"
  by (subst retry_loop.simps) (auto simp: maxRetries_def split: sum.splits prod.splits)

lemma progress_events_append:
  "progress_events (xs @ ys) = progress_events xs @ progress_events ys"
  by (simp add: progress_events_def)

lemma progress_events_retry_loop:
  "progress_events (snd (retry_loop result u d k)) = []"
proof -
  have "\<forall>e \<in> set (snd (retry_loop result u d k)). (case e of OnProgress p t \<Rightarrow> [(p, t)] | _ \<Rightarrow> []) = []"
    using retry_loop_events[of result u d k] by (auto split: queue_event.splits)
  then show ?thesis
    by (auto simp: progress_events_def)
qed

lemma progress_events_body:
  "progress_events (body_events result us d i) = [(i + 1, length us)]"
  by (simp add: body_events_def progress_events_append progress_events_retry_loop)
     (simp add: progress_events_def)

lemma progress_events_concat:
  "progress_events (concat (map f xs)) = concat (map (\<lambda>x. progress_events (f x)) xs)"
  by (induction xs) (simp_all add: progress_events_append, simp add: progress_events_def)

text \<open>The retry loop, one iteration at a time.\<close>

lemma retry_loop_at_4: "retry_loop r u d 4 = (False, [])"
  by (subst retry_loop.simps) (simp add: maxRetries_def)

lemma retry_loop_step:
  "k \<le> 3 \<Longrightarrow> \<not> rate_limited (r k) \<Longrightarrow> retry_loop r u d k = (\<not> isl (r k), [AddToQueue u d])"
  by (subst retry_loop.simps) (auto simp: maxRetries_def rate_limited_def split: sum.splits)

lemma retry_loop_retry:
  "k \<le> 3 \<Longrightarrow> rate_limited (r k) \<Longrightarrow> k' = k + 1 \<Longrightarrow>
   retry_loop r u d k =
     (fst (retry_loop r u d k'),
      AddToQueue u d # (if k' \<le> 3 then [Timeout (2 ^ k * 1000)] else []) @
      snd (retry_loop r u d k'))"
  by (subst retry_loop.simps) (auto simp: maxRetries_def rate_limited_def split: sum.splits prod.splits)

lemma retry_loop_cases:
  "(\<not> rate_limited (r 0) \<longrightarrow> retry_loop r u d 0 = (\<not> isl (r 0), [AddToQueue u d])) \<and>
   (rate_limited (r 0) \<and> \<not> rate_limited (r 1) \<longrightarrow>
      retry_loop r u d 0 = (\<not> isl (r 1), [AddToQueue u d, Timeout 1000, AddToQueue u d])) \<and>
   (rate_limited (r 0) \<and> rate_limited (r 1) \<and> \<not> rate_limited (r 2) \<longrightarrow>
      retry_loop r u d 0 =
        (\<not> isl (r 2), [AddToQueue u d, Timeout 1000, AddToQueue u d, Timeout 2000, AddToQueue u d])) \<and>
   (rate_limited (r 0) \<and> rate_limited (r 1) \<and> rate_limited (r 2) \<and> \<not> rate_limited (r 3) \<longrightarrow>
      retry_loop r u d 0 =
        (\<not> isl (r 3), [AddToQueue u d, Timeout 1000, AddToQueue u d, Timeout 2000, AddToQueue u d,
                 Timeout 4000, AddToQueue u d])) \<and>
   (rate_limited (r 0) \<and> rate_limited (r 1) \<and> rate_limited (r 2) \<and> rate_limited (r 3) \<longrightarrow>
      retry_loop r u d 0 =
        (False, [AddToQueue u d, Timeout 1000, AddToQueue u d, Timeout 2000, AddToQueue u d,
                 Timeout 4000, AddToQueue u d]))"
proof -
  let ?A = "AddToQueue u d"
  have r3a: "\<not> rate_limited (r 3) \<Longrightarrow> retry_loop r u d 3 = (\<not> isl (r 3), [?A])"
    by (rule retry_loop_step) simp_all
  have r3b: "rate_limited (r 3) \<Longrightarrow> retry_loop r u d 3 = (False, [?A])"
    by (subst retry_loop_retry[where k'=4]) (simp_all add: retry_loop_at_4)
  have r2a: "\<not> rate_limited (r 2) \<Longrightarrow> retry_loop r u d 2 = (\<not> isl (r 2), [?A])"
    by (rule retry_loop_step) simp_all
  have r2b: "rate_limited (r 2) \<Longrightarrow>
      retry_loop r u d 2 = (fst (retry_loop r u d 3), ?A # Timeout 4000 # snd (retry_loop r u d 3))"
    by (subst retry_loop_retry[where k'=3]) simp_all
  have r1a: "\<not> rate_limited (r (Suc 0)) \<Longrightarrow> retry_loop r u d (Suc 0) = (\<not> isl (r (Suc 0)), [?A])"
    by (rule retry_loop_step) simp_all
  have r1b: "rate_limited (r (Suc 0)) \<Longrightarrow>
      retry_loop r u d (Suc 0) = (fst (retry_loop r u d 2), ?A # Timeout 2000 # snd (retry_loop r u d 2))"
    by (subst retry_loop_retry[where k'=2]) simp_all
  have r0a: "\<not> rate_limited (r 0) \<Longrightarrow> retry_loop r u d 0 = (\<not> isl (r 0), [?A])"
    by (rule retry_loop_step) simp_all
  have r0b: "rate_limited (r 0) \<Longrightarrow>
      retry_loop r u d 0 =
        (fst (retry_loop r u d (Suc 0)), ?A # Timeout 1000 # snd (retry_loop r u d (Suc 0)))"
    by (subst retry_loop_retry[where k'="Suc 0"]) simp_all
  have c1: "rate_limited (r 0) \<and> \<not> rate_limited (r 1) \<longrightarrow>
      retry_loop r u d 0 = (\<not> isl (r 1), [?A, Timeout 1000, ?A])"
    by (simp add: r0b r1a)
  have c2: "rate_limited (r 0) \<and> rate_limited (r 1) \<and> \<not> rate_limited (r 2) \<longrightarrow>
      retry_loop r u d 0 = (\<not> isl (r 2), [?A, Timeout 1000, ?A, Timeout 2000, ?A])"
    by (simp add: r0b r1b r2a)
  have c3: "rate_limited (r 0) \<and> rate_limited (r 1) \<and> rate_limited (r 2) \<and> \<not> rate_limited (r 3) \<longrightarrow>
      retry_loop r u d 0 =
        (\<not> isl (r 3), [?A, Timeout 1000, ?A, Timeout 2000, ?A, Timeout 4000, ?A])"
    by (simp add: r0b r1b r2b r3a)
  have c4: "rate_limited (r 0) \<and> rate_limited (r 1) \<and> rate_limited (r 2) \<and> rate_limited (r 3) \<longrightarrow>
      retry_loop r u d 0 = (False, [?A, Timeout 1000, ?A, Timeout 2000, ?A, Timeout 4000, ?A])"
    by (simp add: r0b r1b r2b r3b)
  from r0a c1 c2 c3 c4 show ?thesis by blast
qed

lemma upt_split: "i < n \<Longrightarrow> [0..<n] = [0..<i] @ i # [Suc i..<n]"
  by (metis le_add1 less_imp_add_positive upt_add_eq_append upt_conv_Cons add.commute add_0 less_or_eq_imp_le)

text \<open>
  Claim C5. For the track at index \<open>i\<close>, a submission classified as rate-limited is retried
  after 1 s, then 2 s, then 4 s, with at most three retries; the first outcome that is not
  classified as rate-limited (a return, or another error) ends the loop at once, and so does
  the fourth rate-limited outcome. In every case the run goes on: its events are those of the
  tracks before \<open>i\<close>, those of track \<open>i\<close> followed by its progress call, and those of the
  tracks after \<open>i\<close>.
\<close>

theorem batchQueueTracks_backoff:
  assumes "i < length ts"
  shows "(\<not> rate_limited (result i 0) \<longrightarrow>
            retry_loop (result i) (uri (ts ! i)) d 0 =
              (\<not> isl (result i 0), [AddToQueue (uri (ts ! i)) d])) \<and>
         (rate_limited (result i 0) \<and> \<not> rate_limited (result i 1) \<longrightarrow>
            retry_loop (result i) (uri (ts ! i)) d 0 =
              (\<not> isl (result i 1),
               [AddToQueue (uri (ts ! i)) d, Timeout 1000, AddToQueue (uri (ts ! i)) d])) \<and>
         (rate_limited (result i 0) \<and> rate_limited (result i 1) \<and> \<not> rate_limited (result i 2) \<longrightarrow>
            retry_loop (result i) (uri (ts ! i)) d 0 =
              (\<not> isl (result i 2),
               [AddToQueue (uri (ts ! i)) d, Timeout 1000, AddToQueue (uri (ts ! i)) d,
                Timeout 2000, AddToQueue (uri (ts ! i)) d])) \<and>
         (rate_limited (result i 0) \<and> rate_limited (result i 1) \<and> rate_limited (result i 2) \<and>
          \<not> rate_limited (result i 3) \<longrightarrow>
            retry_loop (result i) (uri (ts ! i)) d 0 =
              (\<not> isl (result i 3),
               [AddToQueue (uri (ts ! i)) d, Timeout 1000, AddToQueue (uri (ts ! i)) d,
                Timeout 2000, AddToQueue (uri (ts ! i)) d, Timeout 4000,
                AddToQueue (uri (ts ! i)) d])) \<and>
         (rate_limited (result i 0) \<and> rate_limited (result i 1) \<and> rate_limited (result i 2) \<and>
          rate_limited (result i 3) \<longrightarrow>
            retry_loop (result i) (uri (ts ! i)) d 0 =
              (False,
               [AddToQueue (uri (ts ! i)) d, Timeout 1000, AddToQueue (uri (ts ! i)) d,
                Timeout 2000, AddToQueue (uri (ts ! i)) d, Timeout 4000,
                AddToQueue (uri (ts ! i)) d])) \<and>
         snd (batchQueueTracks result ts d) =
           concat (map (body_events result (map uri ts) d) [0..<i]) @
           (snd (retry_loop (result i) (uri (ts ! i)) d 0) @
            [OnProgress (i + 1) (length ts)] @
            (if i < length ts - 1 then [Timeout 150] else [])) @
           concat (map (body_events result (map uri ts) d) [Suc i..<length ts])"
proof -
  have "snd (batchQueueTracks result ts d) =
      concat (map (body_events result (map uri ts) d) ([0..<i] @ i # [Suc i..<length ts]))"
    using assms upt_split[of i "length ts"] by (simp add: batchQueueTracks_unfold)
  moreover have "body_events result (map uri ts) d i =
      snd (retry_loop (result i) (uri (ts ! i)) d 0) @
            [OnProgress (i + 1) (length ts)] @
            (if i < length ts - 1 then [Timeout 150] else [])"
    using assms by (simp add: body_events_def)
  ultimately have "snd (batchQueueTracks result ts d) =
           concat (map (body_events result (map uri ts) d) [0..<i]) @
           (snd (retry_loop (result i) (uri (ts ! i)) d 0) @
            [OnProgress (i + 1) (length ts)] @
            (if i < length ts - 1 then [Timeout 150] else [])) @
           concat (map (body_events result (map uri ts) d) [Suc i..<length ts])"
    by simp
  with retry_loop_cases[of "result i" "uri (ts ! i)" d] show ?thesis
    by blast
qed

theorem batchQueueTracks_backoff_witness:
  "retry_loop (always_429 0) (uri (example_tracks ! 0)) ''device'' 0 =
     (False,
      [AddToQueue (Some []) ''device'', Timeout 1000, AddToQueue (Some []) ''device'',
       Timeout 2000, AddToQueue (Some []) ''device'', Timeout 4000,
       AddToQueue (Some []) ''device'']) \<and>
   retry_loop (example_result 6) (uri (example_tracks ! 6)) ''device'' 0 =
     (False, [AddToQueue (Some ''tttttt'') ''device''])"
proof -
  have l: "0 < length example_tracks" "6 < length example_tracks"
    by (simp_all add: example_tracks_def)
  have u: "uri (example_tracks ! 0) = Some []" "uri (example_tracks ! 6) = Some ''tttttt''"
    by (simp_all add: example_tracks_def example_track_def eval_nat_numeral)
  have a: "rate_limited (always_429 0 k)" for k
    by (simp add: always_429_def rate_limited_def is_429_def Error_def)
  have b: "\<not> rate_limited (example_result 6 0)" "isl (example_result 6 0)"
    by (simp_all add: example_result_def rate_limited_def is_429_def Error_def)
  from batchQueueTracks_backoff[OF l(1), of always_429 "''device''"] a
  have "retry_loop (always_429 0) (uri (example_tracks ! 0)) ''device'' 0 =
      (False,
       [AddToQueue (uri (example_tracks ! 0)) ''device'', Timeout 1000,
        AddToQueue (uri (example_tracks ! 0)) ''device'', Timeout 2000,
        AddToQueue (uri (example_tracks ! 0)) ''device'', Timeout 4000,
        AddToQueue (uri (example_tracks ! 0)) ''device''])"
    by blast
  moreover from batchQueueTracks_backoff[OF l(2), of example_result "''device''"] b
  have "retry_loop (example_result 6) (uri (example_tracks ! 6)) ''device'' 0 =
      (False, [AddToQueue (uri (example_tracks ! 6)) ''device''])"
    by simp
  ultimately show ?thesis
    unfolding u by simp
qed

text \<open>
  Claim C6. For a list of \<open>n\<close> tracks the run is the concatenation, in list order, of one
  loop body per track; each body starts with a submission of its own track and contains, up
  to its progress call, only submissions of that track and waits; the counter ends at \<open>n\<close>
  and \<^verbatim>\<open>onProgress\<close> is called with 1, 2, ..., \<open>n\<close> (and total \<open>n\<close>), whatever the outcomes are.
\<close>

theorem batchQueueTracks_progress:
  "fst (batchQueueTracks result ts d) = length ts \<and>
   snd (batchQueueTracks result ts d) =
     concat (map (body_events result (map uri ts) d) [0..<length ts]) \<and>
   (\<forall>i<length ts. \<exists>rest.
      snd (retry_loop (result i) (uri (ts ! i)) d 0) = AddToQueue (uri (ts ! i)) d # rest \<and>
      set rest \<subseteq> insert (AddToQueue (uri (ts ! i)) d) (range Timeout)) \<and>
   progress_events (snd (batchQueueTracks result ts d)) =
     map (\<lambda>i. (i + 1, length ts)) [0..<length ts]"
proof -
  have a: "\<And>i. \<exists>rest.
      snd (retry_loop (result i) (uri (ts ! i)) d 0) = AddToQueue (uri (ts ! i)) d # rest \<and>
      set rest \<subseteq> insert (AddToQueue (uri (ts ! i)) d) (range Timeout)"
  proof -
    fix i
    obtain rest where r: "snd (retry_loop (result i) (uri (ts ! i)) d 0) = AddToQueue (uri (ts ! i)) d # rest"
      using retry_loop_first by blast
    moreover have "set rest \<subseteq> insert (AddToQueue (uri (ts ! i)) d) (range Timeout)"
      using retry_loop_events[of "result i" "uri (ts ! i)" d 0] r by auto
    ultimately show "\<exists>rest.
      snd (retry_loop (result i) (uri (ts ! i)) d 0) = AddToQueue (uri (ts ! i)) d # rest \<and>
      set rest \<subseteq> insert (AddToQueue (uri (ts ! i)) d) (range Timeout)" by blast
  qed
  have p: "progress_events (snd (batchQueueTracks result ts d)) =
     map (\<lambda>i. (i + 1, length ts)) [0..<length ts]"
    by (simp add: batchQueueTracks_unfold progress_events_concat progress_events_body)
  show ?thesis
    using a p by (simp add: batchQueueTracks_unfold)
qed

lemma ex10: "[0..<10] = [0,1,2,3,4,5,6,7,8,9::nat]" by code_simp

theorem batchQueueTracks_progress_witness:
  "fst (batchQueueTracks example_result example_tracks ''device'') = 10 \<and>
   progress_events (snd (batchQueueTracks example_result example_tracks ''device'')) =
     [(1, 10), (2, 10), (3, 10), (4, 10), (5, 10), (6, 10), (7, 10), (8, 10), (9, 10), (10, 10)]"
proof -
  have l: "length example_tracks = 10"
    by (simp add: example_tracks_def)
  have m: "map (\<lambda>i. (i + 1, 10 :: nat)) [0..<10] =
      [(1, 10), (2, 10), (3, 10), (4, 10), (5, 10), (6, 10), (7, 10), (8, 10), (9, 10), (10, 10)]"
    by (simp add: ex10)
  from batchQueueTracks_progress[of example_result example_tracks "''device''"]
  have "fst (batchQueueTracks example_result example_tracks ''device'') = length example_tracks"
    and "progress_events (snd (batchQueueTracks example_result example_tracks ''device'')) =
           map (\<lambda>i. (i + 1, length example_tracks)) [0..<length example_tracks]"
    by blast+
  then show ?thesis
    unfolding l m by simp
qed

section \<open>Properties of the bulk collection fetcher\<close>

lemma page_tracks_full: "page_tracks (map (\<lambda>t. \<lparr>track = Some t\<rparr>) xs) = xs"
  by (induction xs) (simp_all add: page_tracks_def)

lemma first_window_2:
  "takeWhile (\<lambda>j. int (0 + j) < 2) [0..<CONCURRENT_REQUESTS] = [0, 1]"
  by (simp add: CONCURRENT_REQUESTS_def upt_rec)

lemma batches_two_pages:
  "batches api mk 2 0 ts evs =
     (ts @ page_promise (api (mk 50)) @ page_promise (api (mk 100)),
      evs @ [Call (mk 50), Call (mk 100)])"
proof -
  have stop: "batches api mk 2 (0 + CONCURRENT_REQUESTS) ts' evs' = (ts', evs')" for ts' evs'
    by (subst batches.simps) (simp add: CONCURRENT_REQUESTS_def)
  have nodelay: "\<not> int (0 + CONCURRENT_REQUESTS) < 2"
    by (simp add: CONCURRENT_REQUESTS_def)
  show ?thesis
    by (subst batches.simps) (simp only: first_window_2 stop nodelay Let_def, simp add: limit_def)
qed

text \<open>
  Claim C9. For a collection of 137 tracks served in full, error-free pages of 50 whose first
  page reports the total 137, getPlaylistTracks requests the first page and then exactly the
  pages at offsets 50 and 100, and returns the 137 tracks in the order of the source.
\<close>

theorem getPlaylistTracks_three_pages:
  assumes "length src = 137"
    and "\<forall>offset. api (PLAYLIST_TRACKS playlistId limit offset) =
           Inr (Some \<lparr>items = Some (map (\<lambda>t. \<lparr>track = Some t\<rparr>) (take limit (drop offset src))),
                      page_total = 137\<rparr>)"
  shows "getPlaylistTracks api playlistId =
           (Inr src,
            [Call (PLAYLIST_TRACKS playlistId 50 0), Call (PLAYLIST_TRACKS playlistId 50 50),
             Call (PLAYLIST_TRACKS playlistId 50 100)])"
proof -
  let ?mk = "\<lambda>offset. PLAYLIST_TRACKS playlistId limit offset"
  have pg: "page_promise (api (?mk offset)) = take limit (drop offset src)" for offset
    using assms(2) by (simp add: page_promise_def page_tracks_full)
  have all: "take limit src @ take limit (drop 50 src) @ take limit (drop 100 src) = src"
  proof -
    have "take 50 (drop 100 src) = drop 100 src"
      using assms(1) by simp
    moreover have "take 50 (drop 50 src) @ drop 100 src = drop 50 src"
      by (metis (no_types) add.commute append_take_drop_id drop_drop numeral_Bit0 numeral_Bit0_eq_double mult_2 add_One_commute semiring_norm(3))
    ultimately show ?thesis by (simp add: limit_def)
  qed
  have first: "api (?mk 0) = Inr (Some \<lparr>items = Some (map (\<lambda>t. \<lparr>track = Some t\<rparr>) (take limit src)),
                      page_total = 137\<rparr>)"
    using assms(2) by (metis drop0)
  have pg': "page_promise (api (PLAYLIST_TRACKS playlistId 50 offset)) = take 50 (drop offset src)"
    for offset
    using pg[of offset] by (simp add: limit_def)
  have "fetch_all api ?mk =
      (Inr (take limit src @ take limit (drop 50 src) @ take limit (drop 100 src)),
       [Call (?mk 0), Call (?mk 50), Call (?mk 100)])"
    unfolding fetch_all_def first
    by (simp add: Let_def page_tracks_full limit_def assms(1) batches_two_pages pg')
  then show ?thesis
    unfolding getPlaylistTracks_def all by (simp add: limit_def)
qed

theorem getPlaylistTracks_three_pages_witness:
  "length [0..<137 :: nat] = 137 \<and>
   getPlaylistTracks example_api ''p'' =
     (Inr [0..<137],
      [Call (PLAYLIST_TRACKS ''p'' 50 0), Call (PLAYLIST_TRACKS ''p'' 50 50),
       Call (PLAYLIST_TRACKS ''p'' 50 100)])"
  using getPlaylistTracks_three_pages[of "[0..<137]" example_api "''p''"]
  by (simp add: example_api_def)

section \<open>Properties of the scope handling\<close>

text \<open>
  Whenever a request is answered with a 403 whose message names the missing scope (and does
  not happen to contain \<^verbatim>\<open>Rate limit exceeded\<close>), \<^verbatim>\<open>makeApiCall\<close> returns \<^verbatim>\<open>null\<close> and
  the scope probe reports that the scopes are there.
\<close>

lemma insufficient_scope_swallowed:
  assumes "first_reply env = Response r" and "status r = 403"
    and "error_message r = Some m" and "str_includes m ''Insufficient client scope''"
    and "\<not> str_includes (''Insufficient client scope: '' @ m) ''Rate limit exceeded''"
    and "spotify_access_token st = Some tok" and "tok \<noteq> []"
  shows "fst (makeApiCall env u opts st) = Inr None" and "hasRequiredScopes env st"
proof -
  show a: "fst (makeApiCall env u opts st) = Inr None" for u opts
    using assms
    by (simp add: makeApiCall_def Let_def ok_def catch_block_def forbidden_error_def Error_def)
  show "hasRequiredScopes env st"
    by (simp add: hasRequiredScopes_def a)
qed

text \<open>
  Claim C8. When the provider answers the saved-tracks request with an insufficient-scope
  403, the fetch should return the empty list and hasRequiredScopes should report false. On
  such a response getUserSavedTracks does return the empty list, but hasRequiredScopes
  reports true: the error is thrown inside \<^verbatim>\<open>makeApiCall\<close> and its \<^verbatim>\<open>catch\<close> block turns every
  error without \<^verbatim>\<open>Rate limit exceeded\<close> in its message into \<^verbatim>\<open>null\<close>.
\<close>

theorem insufficient_scope_not_reported:
  "getUserSavedTracks (\<lambda>u. fst (makeApiCall env_insufficient_scope u no_options example_store))
     = (Inr [], [Call (SAVED_TRACKS 50 (Some 0))]) \<and>
   hasRequiredScopes env_insufficient_scope example_store = True"
  by (simp add: getUserSavedTracks_def fetch_all_def hasRequiredScopes_def makeApiCall_def
      Let_def env_insufficient_scope_def example_store_def getAccessTokenExpiryTs_def ok_def
      catch_block_def forbidden_error_def Error_def limit_def)

section \<open>Properties of the orchestrator\<close>

text \<open>
  Claim C1, as stated: for every resolved track list of length at least 1 the operation
  submits min(n, 150) tracks. It fails when no device is resolved: the run with one track
  and no device returns false after the device check, without a play or queue call.
\<close>

theorem no_device_nothing_submitted:
  "mutationFn (example_env None) (example_variables [example_track 1]) =
     (Inr False, [EnsureActiveDevice (Some ''t'') ''spotify:playlist:p1''])"
  by (simp add: mutationFn_def resolve_tracks_def shuffle_and_queue_def example_env_def
      example_variables_def example_track_def trueRandomShuffle_def Let_def)

text \<open>
  The progress callback as a function, the pipeline's events written out track by track,
  and the submissions of one retry loop: all of them are of the loop's own track.
\<close>

lemma forward_fun:
  "forward large =
     (\<lambda>e. case e of
        OnProgress p t \<Rightarrow>
          ProgressUpdate \<lparr>isQueueing = True, progress = p, total = t,
            message = Some (if large then QueuedOfSongs p t (p + 1) 150 else QueuedOfTracks p t)\<rparr>
      | _ \<Rightarrow> Pipeline e)"
  by (rule ext) (simp add: forward_def MAX_QUEUE_SIZE_def split: queue_event.splits)

lemma batchQueueTracks_bodies:
  "snd (batchQueueTracks result ts d) =
     concat (map (\<lambda>i. snd (retry_loop (result i) (uri (ts ! i)) d 0) @
                        [OnProgress (i + 1) (length ts)] @
                        (if i < length ts - 1 then [Timeout 150] else []))
               [0..<length ts])"
proof -
  have "map (body_events result (map uri ts) d) [0..<length ts] =
        map (\<lambda>i. snd (retry_loop (result i) (uri (ts ! i)) d 0) @
                        [OnProgress (i + 1) (length ts)] @
                        (if i < length ts - 1 then [Timeout 150] else []))
               [0..<length ts]"
    by (rule map_cong) (simp_all add: body_events_def)
  then have "concat (map (body_events result (map uri ts) d) [0..<length ts]) =
        concat (map (\<lambda>i. snd (retry_loop (result i) (uri (ts ! i)) d 0) @
                        [OnProgress (i + 1) (length ts)] @
                        (if i < length ts - 1 then [Timeout 150] else []))
               [0..<length ts])"
    by (rule arg_cong)
  then show ?thesis
    by (simp only: batchQueueTracks_unfold snd_conv)
qed

lemma retry_loop_own_track:
  "\<exists>rest. snd (retry_loop result u d 0) = AddToQueue u d # rest \<and>
          set rest \<subseteq> insert (AddToQueue u d) (range Timeout)"
proof -
  obtain rest where r: "snd (retry_loop result u d 0) = AddToQueue u d # rest"
    using retry_loop_first by blast
  moreover have "set rest \<subseteq> insert (AddToQueue u d) (range Timeout)"
    using retry_loop_events[of result u d 0] r by auto
  ultimately show ?thesis by blast
qed

text \<open>
  Claim C1, amended. For every resolved track list of length \<open>n\<close> at least 1, the shuffled
  list is a permutation of it, and the first element together with the next min(n, 150) - 1
  elements is the prefix of length min(n, 150) of that one shuffled list. When a device is
  resolved and the transfer and play calls return, the operation plays exactly that first
  element and then runs the pipeline on exactly those next elements, in order, each loop
  submitting its own track; the events of the run are written out in full. When no device is
  resolved (none, or an empty id) the operation returns false after the device check and
  makes no play or queue call.
\<close>

theorem mutationFn_submits_prefix:
  assumes "resolve_tracks env variables = (Inr ts, evs)"
    and "ts \<noteq> []"
    and "\<forall>k. 0 \<le> getSecureRandom env k \<and> getSecureRandom env k < 1"
  shows "let shuffled = trueRandomShuffle (getSecureRandom env) ts;
             first = shuffled ! 0;
             queued = take (min (length ts) 150 - 1) (drop 1 shuffled);
             large = (150 < length ts);
             device = EnsureActiveDevice (uri first)
                        (if playlist_id (playlist variables) = ''liked-songs''
                         then ''spotify:collection:tracks''
                         else playlist_uri (playlist variables))
         in mset shuffled = mset ts \<and>
            first # queued = take (min (length ts) 150) shuffled \<and>
            length (first # queued) = min (length ts) 150 \<and>
            (\<forall>d b1 b2.
               ensureActiveDevice env = Some d \<and> d \<noteq> [] \<and>
               transferPlayback_result env = Inr b1 \<and> playUris_result env = Inr b2 \<longrightarrow>
               mutationFn env variables =
                 (Inr True,
                  evs @
                  [device, TransferPlayback d True, PlayUris [uri first] d,
                   ProgressUpdate \<lparr>isQueueing = True, progress = 0, total = length queued,
                     message = Some (if large then QueueingRandomlySelected 150
                                     else PreparingQueue)\<rparr>] @
                  map (\<lambda>e. case e of
                         OnProgress p t \<Rightarrow>
                           ProgressUpdate \<lparr>isQueueing = True, progress = p, total = t,
                             message = Some (if large then QueuedOfSongs p t (p + 1) 150
                                             else QueuedOfTracks p t)\<rparr>
                       | _ \<Rightarrow> Pipeline e)
                    (concat (map (\<lambda>i. snd (retry_loop (addToQueue_result env i)
                                             (uri (queued ! i)) d 0) @
                                       [OnProgress (i + 1) (length queued)] @
                                       (if i < length queued - 1 then [Timeout 150] else []))
                               [0..<length queued])) @
                  [ProgressUpdate \<lparr>isQueueing = False, progress = length queued,
                     total = length queued,
                     message = (if large then Some (QueuedRandomSongs 150) else None)\<rparr>] @
                  (if large
                   then [SetTimeout 2000 \<lparr>isQueueing = False, progress = length queued,
                           total = length queued, message = None\<rparr>]
                   else [])) \<and>
               (\<forall>i<length queued. \<exists>rest.
                  snd (retry_loop (addToQueue_result env i) (uri (queued ! i)) d 0) =
                    AddToQueue (uri (queued ! i)) d # rest \<and>
                  set rest \<subseteq> insert (AddToQueue (uri (queued ! i)) d) (range Timeout))) \<and>
            (\<not> truthy (ensureActiveDevice env) \<longrightarrow>
               mutationFn env variables = (Inr False, evs @ [device]))"
proof -
  let ?s = "trueRandomShuffle (getSecureRandom env) ts"
  let ?q = "take (min (length ts) 150 - 1) (drop 1 ?s)"
  let ?dev = "EnsureActiveDevice (uri (?s ! 0))
                (if playlist_id (playlist variables) = ''liked-songs''
                 then ''spotify:collection:tracks'' else playlist_uri (playlist variables))"
  have len: "length ?s = length ts"
    using assms(3) by (rule trueRandomShuffle_length)
  have ms: "mset ?s = mset ts"
    using assms(3) by (rule trueRandomShuffle_mset)
  from len assms(2) obtain a as where s: "?s = a # as"
    by (cases ?s) auto
  have q: "take (MAX_QUEUE_SIZE - 1) (drop 1 ?s) = ?q"
    using len by (simp add: MAX_QUEUE_SIZE_def s min_def)
  have pre: "?s ! 0 # ?q = take (min (length ts) 150) ?s"
    using len assms(2) by (cases "length ts") (auto simp: s min_def take_Cons')
  have l: "length (?s ! 0 # ?q) = min (length ts) 150"
    unfolding pre using len by simp
  have nodev: "mutationFn env variables = (Inr False, evs @ [?dev])"
    if "\<not> truthy (ensureActiveDevice env)"
    using that assms(1,2)
    by (auto simp: mutationFn_def shuffle_and_queue_def Let_def truthy_def split: option.splits)
  have dev: "mutationFn env variables =
      (Inr True,
       evs @ [?dev, TransferPlayback d True, PlayUris [uri (?s ! 0)] d] @
       drain_queue env (150 < length ts) ?q d)"
    if "ensureActiveDevice env = Some d" "d \<noteq> []"
      "transferPlayback_result env = Inr b1" "playUris_result env = Inr b2" for d b1 b2
    using that assms(1,2) q
    by (simp add: mutationFn_def shuffle_and_queue_def Let_def MAX_QUEUE_SIZE_def)
  have drain: "drain_queue env large ?q d =
      [ProgressUpdate \<lparr>isQueueing = True, progress = 0, total = length ?q,
         message = Some (if large then QueueingRandomlySelected 150 else PreparingQueue)\<rparr>] @
      map (\<lambda>e. case e of
             OnProgress p t \<Rightarrow>
               ProgressUpdate \<lparr>isQueueing = True, progress = p, total = t,
                 message = Some (if large then QueuedOfSongs p t (p + 1) 150
                                 else QueuedOfTracks p t)\<rparr>
           | _ \<Rightarrow> Pipeline e)
        (concat (map (\<lambda>i. snd (retry_loop (addToQueue_result env i) (uri (?q ! i)) d 0) @
                           [OnProgress (i + 1) (length ?q)] @
                           (if i < length ?q - 1 then [Timeout 150] else []))
                   [0..<length ?q])) @
      [ProgressUpdate \<lparr>isQueueing = False, progress = length ?q, total = length ?q,
         message = (if large then Some (QueuedRandomSongs 150) else None)\<rparr>] @
      (if large
       then [SetTimeout 2000 \<lparr>isQueueing = False, progress = length ?q,
               total = length ?q, message = None\<rparr>]
       else [])" for large d
    unfolding drain_queue_def Let_def forward_fun batchQueueTracks_bodies
    by (simp add: MAX_QUEUE_SIZE_def)
  have A: "\<forall>d b1 b2.
               ensureActiveDevice env = Some d \<and> d \<noteq> [] \<and>
               transferPlayback_result env = Inr b1 \<and> playUris_result env = Inr b2 \<longrightarrow>
               mutationFn env variables =
                 (Inr True,
                  evs @
                  [?dev, TransferPlayback d True, PlayUris [uri (?s ! 0)] d,
                   ProgressUpdate \<lparr>isQueueing = True, progress = 0, total = length ?q,
                     message = Some (if 150 < length ts then QueueingRandomlySelected 150
                                     else PreparingQueue)\<rparr>] @
                  map (\<lambda>e. case e of
                         OnProgress p t \<Rightarrow>
                           ProgressUpdate \<lparr>isQueueing = True, progress = p, total = t,
                             message = Some (if 150 < length ts then QueuedOfSongs p t (p + 1) 150
                                             else QueuedOfTracks p t)\<rparr>
                       | _ \<Rightarrow> Pipeline e)
                    (concat (map (\<lambda>i. snd (retry_loop (addToQueue_result env i)
                                             (uri (?q ! i)) d 0) @
                                       [OnProgress (i + 1) (length ?q)] @
                                       (if i < length ?q - 1 then [Timeout 150] else []))
                               [0..<length ?q])) @
                  [ProgressUpdate \<lparr>isQueueing = False, progress = length ?q,
                     total = length ?q,
                     message = (if 150 < length ts then Some (QueuedRandomSongs 150) else None)\<rparr>] @
                  (if 150 < length ts
                   then [SetTimeout 2000 \<lparr>isQueueing = False, progress = length ?q,
                           total = length ?q, message = None\<rparr>]
                   else [])) \<and>
               (\<forall>i<length ?q. \<exists>rest.
                  snd (retry_loop (addToQueue_result env i) (uri (?q ! i)) d 0) =
                    AddToQueue (uri (?q ! i)) d # rest \<and>
                  set rest \<subseteq> insert (AddToQueue (uri (?q ! i)) d) (range Timeout))"
  proof (intro allI impI conjI)
    fix d b1 b2
    assume h: "ensureActiveDevice env = Some d \<and> d \<noteq> [] \<and>
               transferPlayback_result env = Inr b1 \<and> playUris_result env = Inr b2"
    then have "mutationFn env variables =
      (Inr True,
       evs @ [?dev, TransferPlayback d True, PlayUris [uri (?s ! 0)] d] @
       drain_queue env (150 < length ts) ?q d)"
      using dev by blast
    then show "mutationFn env variables =
                 (Inr True,
                  evs @
                  [?dev, TransferPlayback d True, PlayUris [uri (?s ! 0)] d,
                   ProgressUpdate \<lparr>isQueueing = True, progress = 0, total = length ?q,
                     message = Some (if 150 < length ts then QueueingRandomlySelected 150
                                     else PreparingQueue)\<rparr>] @
                  map (\<lambda>e. case e of
                         OnProgress p t \<Rightarrow>
                           ProgressUpdate \<lparr>isQueueing = True, progress = p, total = t,
                             message = Some (if 150 < length ts then QueuedOfSongs p t (p + 1) 150
                                             else QueuedOfTracks p t)\<rparr>
                       | _ \<Rightarrow> Pipeline e)
                    (concat (map (\<lambda>i. snd (retry_loop (addToQueue_result env i)
                                             (uri (?q ! i)) d 0) @
                                       [OnProgress (i + 1) (length ?q)] @
                                       (if i < length ?q - 1 then [Timeout 150] else []))
                               [0..<length ?q])) @
                  [ProgressUpdate \<lparr>isQueueing = False, progress = length ?q,
                     total = length ?q,
                     message = (if 150 < length ts then Some (QueuedRandomSongs 150) else None)\<rparr>] @
                  (if 150 < length ts
                   then [SetTimeout 2000 \<lparr>isQueueing = False, progress = length ?q,
                           total = length ?q, message = None\<rparr>]
                   else []))"
      by (simp only: drain append.simps append_assoc)
  next
    fix d b1 b2 i
    assume "i < length ?q"
    show "\<exists>rest.
            snd (retry_loop (addToQueue_result env i) (uri (?q ! i)) d 0) =
              AddToQueue (uri (?q ! i)) d # rest \<and>
            set rest \<subseteq> insert (AddToQueue (uri (?q ! i)) d) (range Timeout)"
      by (rule retry_loop_own_track)
  qed
  have B: "\<not> truthy (ensureActiveDevice env) \<longrightarrow>
             mutationFn env variables = (Inr False, evs @ [?dev])"
    using nodev by blast
  show ?thesis
    unfolding Let_def by (intro conjI ms pre l A B)
qed

theorem mutationFn_submits_prefix_witness:
  "mutationFn (example_env (Some ''device''))
     (example_variables [example_track 1, example_track 2, example_track 3]) =
     (Inr True,
      [EnsureActiveDevice (Some ''t'') ''spotify:playlist:p1'',
       TransferPlayback ''device'' True,
       PlayUris [Some ''t''] ''device'',
       ProgressUpdate \<lparr>isQueueing = True, progress = 0, total = 2,
         message = Some PreparingQueue\<rparr>,
       Pipeline (AddToQueue (Some ''ttt'') ''device''),
       ProgressUpdate \<lparr>isQueueing = True, progress = 1, total = 2,
         message = Some (QueuedOfTracks 1 2)\<rparr>,
       Pipeline (Timeout 150),
       Pipeline (AddToQueue (Some ''tt'') ''device''),
       ProgressUpdate \<lparr>isQueueing = True, progress = 2, total = 2,
         message = Some (QueuedOfTracks 2 2)\<rparr>,
       ProgressUpdate \<lparr>isQueueing = False, progress = 2, total = 2, message = None\<rparr>]) \<and>
   mutationFn (example_env None)
     (example_variables [example_track 1, example_track 2, example_track 3]) =
     (Inr False, [EnsureActiveDevice (Some ''t'') ''spotify:playlist:p1'']) \<and>
   mutationFn (example_env (Some []))
     (example_variables [example_track 1, example_track 2, example_track 3]) =
     (Inr False, [EnsureActiveDevice (Some ''t'') ''spotify:playlist:p1''])"
proof -
  let ?ts = "[example_track 1, example_track 2, example_track 3]"
  have r: "resolve_tracks (example_env dv) (example_variables ?ts) = (Inr ?ts, [])" for dv
    by (simp add: resolve_tracks_def example_variables_def example_track_def)
  have rnd: "\<forall>k. 0 \<le> getSecureRandom (example_env dv) k \<and>
                 getSecureRandom (example_env dv) k < 1" for dv
    by (simp add: example_env_def)
  have sh: "trueRandomShuffle (getSecureRandom (example_env dv)) ?ts =
      [example_track 1, example_track 3, example_track 2]" for dv
    by (simp add: trueRandomShuffle_def example_env_def Let_def)
  have e: "ensureActiveDevice (example_env dv) = dv"
    "transferPlayback_result (example_env dv) = Inr True"
    "playUris_result (example_env dv) = Inr True"
    "addToQueue_result (example_env dv) = example_result" for dv
    by (simp_all add: example_env_def)
  have p: "playlist_id (playlist (example_variables ?ts)) = ''p1''"
    "playlist_uri (playlist (example_variables ?ts)) = ''spotify:playlist:p1''"
    by (simp_all add: example_variables_def)
  have u: "uri (example_track (Suc 0)) = Some ''t''" "uri (example_track 2) = Some ''tt''"
    "uri (example_track 3) = Some ''ttt''" "uri (example_track (Suc (Suc 0))) = Some ''tt''"
    by (simp_all add: example_track_def eval_nat_numeral)
  have a0: "retry_loop (example_result 0) v ''device'' 0 = (True, [AddToQueue v ''device''])"
    for v
    by (subst retry_loop_step) (simp_all add: example_result_def rate_limited_def)
  have a1: "retry_loop (example_result (Suc 0)) v ''device'' 0 =
      (True, [AddToQueue v ''device''])" for v
    by (subst retry_loop_step) (simp_all add: example_result_def rate_limited_def)
  have ex: "\<exists>b :: bool. b"
    by blast
  note t = mutationFn_submits_prefix[OF r _ rnd, unfolded Let_def sh p e]
  have d1: "mutationFn (example_env (Some ''device'')) (example_variables ?ts) =
     (Inr True,
      [EnsureActiveDevice (Some ''t'') ''spotify:playlist:p1'',
       TransferPlayback ''device'' True,
       PlayUris [Some ''t''] ''device'',
       ProgressUpdate \<lparr>isQueueing = True, progress = 0, total = 2,
         message = Some PreparingQueue\<rparr>,
       Pipeline (AddToQueue (Some ''ttt'') ''device''),
       ProgressUpdate \<lparr>isQueueing = True, progress = 1, total = 2,
         message = Some (QueuedOfTracks 1 2)\<rparr>,
       Pipeline (Timeout 150),
       Pipeline (AddToQueue (Some ''tt'') ''device''),
       ProgressUpdate \<lparr>isQueueing = True, progress = 2, total = 2,
         message = Some (QueuedOfTracks 2 2)\<rparr>,
       ProgressUpdate \<lparr>isQueueing = False, progress = 2, total = 2, message = None\<rparr>])"
    using t[of "Some ''device''"] by (simp add: u a0 a1 ex numeral_2_eq_2)
  have d2: "mutationFn (example_env None) (example_variables ?ts) =
     (Inr False, [EnsureActiveDevice (Some ''t'') ''spotify:playlist:p1''])"
    using t[of None] by (simp add: u truthy_def)
  have d3: "mutationFn (example_env (Some [])) (example_variables ?ts) =
     (Inr False, [EnsureActiveDevice (Some ''t'') ''spotify:playlist:p1''])"
    using t[of "Some []"] by (simp add: u truthy_def)
  from d1 d2 d3 show ?thesis by simp
qed

end
